theory Spec2Isabelle
  imports Main
begin

section \<open>The pay-fees store (web/site/stores/pay-fees.ts)\<close>

text \<open>
  The store is a Pinia setup store: a handful of refs and the functions that mutate them.
  The refs become the fields of one record, every function becomes a function from the
  state to the new state, and the collaborators the store calls (the alert store, the
  console, the UUID generator, the pay API) become further fields that record what the
  store did to them. JavaScript is single threaded and each operation is modelled as run
  to completion; interleavings of two asynchronous operations are outside the model.
\<close>

subsection \<open>Values\<close>

text \<open>
  A property of a JavaScript object is absent (\<open>undefined\<close>), \<open>null\<close>, or a value.
  Equality of this datatype is \<open>===\<close> on strings and on the numbers used here.
\<close>

datatype 'a nullable = Undefined | Null | Val 'a

text \<open>\<open>x == null\<close>: true of \<open>null\<close> and of \<open>undefined\<close>.\<close>

fun eq_null :: "'a nullable \<Rightarrow> bool" where
  "eq_null Undefined = True"
| "eq_null Null = True"
| "eq_null (Val v) = False"

datatype PaymentMethod = DIRECT_PAY | PAD

datatype AlertCategory = PAYMENT_METHOD | FEE_INFO

record Alert =
  severity :: string
  category :: AlertCategory

datatype js_error = TypeError | FetchError

text \<open>The outcome of an awaited call.\<close>

datatype 'a promise = Rejected js_error | Resolved 'a

text \<open>
  A quantity is a JavaScript number, an IEEE double. The store sets it to one, adds one
  and subtracts one, so the quantities it builds are integers. Every integer from
  \<open>-2^53\<close> to \<open>2^53\<close> is a double, and on them adding and subtracting one is exact
  but at the two ends: \<open>2^53 + 1\<close> is not a double and rounds (ties to even) back to
  \<open>2^53\<close>, and \<open>-2^53 - 1\<close> rounds back to \<open>-2^53\<close>. The type of quantities is
  this range with that arithmetic. Numbers that are not integers, \<open>NaN\<close>, the infinities
  and the doubles beyond \<open>2^53\<close> are not values of the type.
\<close>

definition two53 :: int where
  "two53 = 2 ^ 53"

typedef quantity_number = "{q :: int. - two53 \<le> q \<and> q \<le> two53}"
  morphisms number_value Number
  by (rule exI [of _ 0]) (simp add: two53_def)

setup_lifting type_definition_quantity_number

lift_definition number_one :: quantity_number is "1"
  by (simp add: two53_def)

text \<open>\<open>q + 1\<close> and \<open>q - 1\<close> in double arithmetic.\<close>

lift_definition plus_one :: "quantity_number \<Rightarrow> quantity_number"
  is "\<lambda>q. if q < two53 then q + 1 else q"
  by auto

lift_definition minus_one :: "quantity_number \<Rightarrow> quantity_number"
  is "\<lambda>q. if - two53 < q then q - 1 else q"
  by auto

text \<open>
  The interfaces \<open>FeeInfo\<close>, \<open>PayFeesWidgetItem\<close> and \<open>FeeData\<close> are declared outside the
  store; the records have the fields the store reads or writes. The amounts \<open>total\<close> and
  \<open>filingFees\<close> are only tested for \<open>null\<close> and copied. \<open>PayFeesWidgetItem\<close> extends
  \<open>FeeInfo\<close>; \<open>quantity\<close> is optional (\<open>None\<close> is \<open>undefined\<close>). A \<open>uiUuid\<close> is the
  number of the identifier in the order the generator handed them out.
\<close>

record FeeInfo =
  filingType :: "string nullable"
  filingTypeCode :: "string nullable"
  total :: "int nullable"
  filingFees :: "int nullable"

record PayFeesWidgetItem = FeeInfo +
  quantity :: "quantity_number option"
  uiUuid :: nat

record FeeData =
  entityType :: string
  filingTypeCode_d :: string

record CfsAccount =
  status :: "string option"
  bankAccountNumber :: "string option"

record ConnectPayAccount =
  cfsAccount :: "CfsAccount option"
  paymentMethod :: "string option"

datatype log_entry = InvalidFee "FeeInfo option" | InitPaymentError js_error

subsection \<open>The state\<close>

text \<open>
  The seven refs of the store, then its surroundings: the calls made to
  \<open>alertStore.addAlert\<close> and to \<open>console.error\<close>, in order; the number of identifiers
  \<open>UUIDv4\<close> has handed out; the descriptors \<open>payApi.fetchFee\<close> was called with, in
  order; and the value the watcher of \<open>userSelectedPaymentMethod\<close> saw last.
\<close>

record store =
  fees :: "PayFeesWidgetItem list"
  folioNumber :: string
  feeInfo :: "(FeeData \<times> FeeInfo) list"
  userPaymentAccount :: ConnectPayAccount
  userSelectedPaymentMethod :: PaymentMethod
  allowAlternatePaymentMethod :: bool
  allowedPaymentMethods :: "(string \<times> PaymentMethod) list"
  alerts :: "Alert list"
  console :: "log_entry list"
  uuid_next :: nat
  fetch_calls :: "FeeData list"
  watcher_oldValue :: PaymentMethod

definition emptyAccount :: ConnectPayAccount where
  "emptyAccount = \<lparr>cfsAccount = None, paymentMethod = None\<rparr>"

text \<open>The store as \<open>defineStore\<close> creates it (lines 17-29).\<close>

definition initial_store :: store where
  "initial_store =
     \<lparr>fees = [], folioNumber = [], feeInfo = [],
      userPaymentAccount = emptyAccount,
      userSelectedPaymentMethod = DIRECT_PAY,
      allowAlternatePaymentMethod = False,
      allowedPaymentMethods = [],
      alerts = [], console = [], uuid_next = 0, fetch_calls = [],
      watcher_oldValue = DIRECT_PAY\<rparr>"

text \<open>
  Modelled from the spec: the alert store is not among the sources; \<open>addAlert\<close> is a
  fire-and-forget notification, recorded here as one more call.
\<close>

definition addAlert :: "Alert \<Rightarrow> store \<Rightarrow> store" where
  "addAlert a s = s\<lparr>alerts := alerts s @ [a]\<rparr>"

definition console_error :: "log_entry \<Rightarrow> store \<Rightarrow> store" where
  "console_error e s = s\<lparr>console := console s @ [e]\<rparr>"

subsection \<open>Array helpers\<close>

text \<open>
  \<open>Array.prototype.findIndex\<close>, with \<open>None\<close> for \<open>-1\<close>. \<open>Array.prototype.find\<close> returns
  the element at that index by reference, so a write through the reference is an update
  of the list at that index.
\<close>

fun findIndex :: "('a \<Rightarrow> bool) \<Rightarrow> 'a list \<Rightarrow> nat option" where
  "findIndex P [] = None"
| "findIndex P (x # xs) = (if P x then Some 0 else map_option Suc (findIndex P xs))"

text \<open>\<open>xs.splice(i, 1)\<close>.\<close>

definition splice1 :: "nat \<Rightarrow> 'a list \<Rightarrow> 'a list" where
  "splice1 i xs = take i xs @ drop (Suc i) xs"

subsection \<open>The fee ledger: addFee and removeFee (lines 95-130)\<close>

text \<open>The callback of \<open>find\<close> and \<open>findIndex\<close>: both fields compared with \<open>===\<close>.\<close>

definition fee_matches :: "FeeInfo \<Rightarrow> PayFeesWidgetItem \<Rightarrow> bool" where
  "fee_matches newFee fee \<longleftrightarrow>
     filingType fee = filingType newFee \<and> filingTypeCode fee = filingTypeCode newFee"

text \<open>\<open>{ ...newFee, quantity: 1, uiUuid: UUIDv4() }\<close>.\<close>

definition new_item :: "FeeInfo \<Rightarrow> nat \<Rightarrow> PayFeesWidgetItem" where
  "new_item newFee u =
     \<lparr>filingType = filingType newFee, filingTypeCode = filingTypeCode newFee,
      total = total newFee, filingFees = filingFees newFee,
      quantity = Some number_one, uiUuid = u\<rparr>"

text \<open>
  The argument is \<open>None\<close> when the caller passes \<open>null\<close> or \<open>undefined\<close>, which the
  source tests for (\<open>!newFee\<close>). The callback of \<open>find\<close> reads \<open>newFee.filingType\<close>, so
  on a ledger that is not empty such a call throws before anything is written.
\<close>

definition addFee :: "FeeInfo option \<Rightarrow> store \<Rightarrow> js_error + store" where
  "addFee newFee s =
     (case newFee of
        None \<Rightarrow>
          (if fees s = [] then Inr (console_error (InvalidFee None) s) else Inl TypeError)
      | Some nf \<Rightarrow>
          (case findIndex (fee_matches nf) (fees s) of
             Some i \<Rightarrow>
               (let fee = fees s ! i in
                case quantity fee of
                  None \<Rightarrow> Inr (s\<lparr>fees := (fees s)[i := fee\<lparr>quantity := Some number_one\<rparr>]\<rparr>)
                | Some q \<Rightarrow> Inr (s\<lparr>fees := (fees s)[i := fee\<lparr>quantity := Some (plus_one q)\<rparr>]\<rparr>))
           | None \<Rightarrow>
               (if eq_null (total nf) \<or> eq_null (filingFees nf) \<or> eq_null (filingTypeCode nf)
                then Inr (console_error (InvalidFee (Some nf)) s)
                else Inr (s\<lparr>fees := fees s @ [new_item nf (uuid_next s)],
                            uuid_next := Suc (uuid_next s)\<rparr>))))"

text \<open>The else branch of \<open>removeFee\<close>: \<open>findIndex\<close>, then \<open>splice\<close> when found.\<close>

definition remove_entry :: "FeeInfo \<Rightarrow> store \<Rightarrow> store" where
  "remove_entry feeToRemove s =
     (case findIndex (fee_matches feeToRemove) (fees s) of
        Some index \<Rightarrow> s\<lparr>fees := splice1 index (fees s)\<rparr>
      | None \<Rightarrow> s)"

text \<open>
  \<open>fee?.quantity && fee.quantity > 1\<close>: false when nothing is found, when the quantity
  is \<open>undefined\<close> or zero, and when it is not above one.
\<close>

definition removeFee :: "FeeInfo option \<Rightarrow> store \<Rightarrow> js_error + store" where
  "removeFee feeToRemove s =
     (case feeToRemove of
        None \<Rightarrow> (if fees s = [] then Inr s else Inl TypeError)
      | Some fr \<Rightarrow>
          (case findIndex (fee_matches fr) (fees s) of
             None \<Rightarrow> Inr (remove_entry fr s)
           | Some i \<Rightarrow>
               (let fee = fees s ! i in
                case quantity fee of
                  None \<Rightarrow> Inr (remove_entry fr s)
                | Some q \<Rightarrow>
                    if number_value q \<noteq> 0 \<and> number_value q > 1
                    then Inr (s\<lparr>fees := (fees s)[i := fee\<lparr>quantity := Some (minus_one q)\<rparr>]\<rparr>)
                    else Inr (remove_entry fr s))))"

text \<open>
  A caller's sequence of calls. A call that throws leaves the store as it was, and the
  next call of the sequence sees that store.
\<close>

datatype ledger_call = AddFee "FeeInfo option" | RemoveFee "FeeInfo option"

definition after_call :: "js_error + store \<Rightarrow> store \<Rightarrow> store" where
  "after_call r s = (case r of Inl e \<Rightarrow> s | Inr s' \<Rightarrow> s')"

fun ledger_step :: "ledger_call \<Rightarrow> store \<Rightarrow> store" where
  "ledger_step (AddFee f) s = after_call (addFee f s) s"
| "ledger_step (RemoveFee f) s = after_call (removeFee f s) s"

fun ledger_run :: "ledger_call list \<Rightarrow> store \<Rightarrow> store" where
  "ledger_run [] s = s"
| "ledger_run (c # cs) s = ledger_run cs (ledger_step c s)"

text \<open>The uniqueness key of an entry, and the invariant of the ledger.\<close>

definition fee_key :: "PayFeesWidgetItem \<Rightarrow> string nullable \<times> string nullable" where
  "fee_key fee = (filingType fee, filingTypeCode fee)"

definition positive_quantity :: "PayFeesWidgetItem \<Rightarrow> bool" where
  "positive_quantity fee = (case quantity fee of None \<Rightarrow> False | Some q \<Rightarrow> 1 \<le> number_value q)"

definition ledger_inv :: "PayFeesWidgetItem list \<Rightarrow> bool" where
  "ledger_inv fs \<longleftrightarrow> distinct (map fee_key fs) \<and> list_all positive_quantity fs"

subsection \<open>The fee-info cache: loadFeeTypesAndCharges, getFeeInfo, addPayFees (lines 132-176)\<close>

text \<open>
  \<open>payApi.fetchFee\<close> and \<open>payApi.feeType\<close> live in the pay-api service, outside the store,
  and are parameters here. A call of \<open>fetchFee\<close> resolves to a fee, resolves to
  \<open>undefined\<close> (\<open>Resolved None\<close>) or rejects; what it answers may depend on the
  descriptor and on how many calls were made before it. \<open>feeType\<close> is the table from fee
  codes to descriptors; a code the table does not have is outside the model.
\<close>

type_synonym fetchFee = "nat \<Rightarrow> FeeData \<Rightarrow> FeeInfo option promise"

type_synonym feeType = "string \<Rightarrow> FeeData"

text \<open>
  The \<open>for ... of\<close> loop of \<open>loadFeeTypesAndCharges\<close>. Each call is awaited before the
  next is made, and nothing catches a rejection: it leaves the loop and rejects the
  promise of \<open>loadFeeTypesAndCharges\<close>, with the pairs pushed so far still in the cache.
\<close>

fun fetch_each :: "fetchFee \<Rightarrow> FeeData list \<Rightarrow> store \<Rightarrow> (js_error + unit) \<times> store" where
  "fetch_each api [] s = (Inr (), s)"
| "fetch_each api (filingDataItem # rest) s =
     (let s1 = s\<lparr>fetch_calls := fetch_calls s @ [filingDataItem]\<rparr> in
      case api (length (fetch_calls s)) filingDataItem of
        Rejected e \<Rightarrow> (Inl e, s1)
      | Resolved None \<Rightarrow> fetch_each api rest s1
      | Resolved (Some fee) \<Rightarrow>
          fetch_each api rest (s1\<lparr>feeInfo := feeInfo s1 @ [(filingDataItem, fee)]\<rparr>))"

definition loadFeeTypesAndCharges ::
  "fetchFee \<Rightarrow> string \<Rightarrow> FeeData list \<Rightarrow> store \<Rightarrow> (js_error + unit) \<times> store" where
  "loadFeeTypesAndCharges api newFolioNumber filingData s =
     fetch_each api filingData (s\<lparr>folioNumber := newFolioNumber\<rparr>)"

text \<open>The callback of \<open>feeInfo.value.find\<close>.\<close>

definition data_matches :: "FeeData \<Rightarrow> FeeData \<times> FeeInfo \<Rightarrow> bool" where
  "data_matches searchFilingData item \<longleftrightarrow>
     entityType (fst item) = entityType searchFilingData \<and>
     filingTypeCode_d (fst item) = filingTypeCode_d searchFilingData"

function getFeeInfo ::
  "fetchFee \<Rightarrow> FeeData \<Rightarrow> bool \<Rightarrow> store \<Rightarrow> (js_error + FeeInfo option) \<times> store" where
  "getFeeInfo api searchFilingData tryLoadIfNotCached s =
     (case find (data_matches searchFilingData) (feeInfo s) of
        Some feeInfoItem \<Rightarrow> (Inr (Some (snd feeInfoItem)), s)
      | None \<Rightarrow>
          if tryLoadIfNotCached
          then (case loadFeeTypesAndCharges api (folioNumber s) [searchFilingData] s of
                  (Inl e, s') \<Rightarrow> (Inl e, s')
                | (Inr u, s') \<Rightarrow> getFeeInfo api searchFilingData False s')
          else (Inr None, s))"
  by pat_completeness auto
termination
  by (relation "measure (\<lambda>(api, d, tryLoad, s). if tryLoad then 1 else 0)") auto

text \<open>
  \<open>addPayFees\<close> catches whatever \<open>getFeeInfo\<close> or \<open>addFee\<close> throws and raises a
  \<open>FEE_INFO\<close> alert; what was written before the throw stays written.
\<close>

definition addPayFees :: "feeType \<Rightarrow> fetchFee \<Rightarrow> string \<Rightarrow> store \<Rightarrow> store" where
  "addPayFees table api feeCode s =
     (let fee = table feeCode in
      case getFeeInfo api fee True s of
        (Inl e, s') \<Rightarrow> addAlert \<lparr>severity = ''error'', category = FEE_INFO\<rparr> s'
      | (Inr None, s') \<Rightarrow> s'
      | (Inr (Some info), s') \<Rightarrow>
          (case addFee (Some info) s' of
             Inl e \<Rightarrow> addAlert \<lparr>severity = ''error'', category = FEE_INFO\<rparr> s'
           | Inr s'' \<Rightarrow> s''))"

subsection \<open>The payment method selector (lines 21-93)\<close>

definition PAD_PENDING_STATES :: "string list" where
  "PAD_PENDING_STATES = [''PENDING'', ''PENDING_PAD_ACTIVATION'']"

text \<open>\<open>PAD_PENDING_STATES.includes(account.cfsAccount?.status)\<close>.\<close>

definition pending_status :: "ConnectPayAccount \<Rightarrow> bool" where
  "pending_status account =
     (case cfsAccount account of
        None \<Rightarrow> False
      | Some cfs \<Rightarrow>
          (case status cfs of None \<Rightarrow> False | Some st \<Rightarrow> st \<in> set PAD_PENDING_STATES))"

text \<open>
  The condition of the watcher also asks for the status to be truthy: not absent and not
  the empty string.
\<close>

definition watch_condition :: "ConnectPayAccount \<Rightarrow> bool" where
  "watch_condition account =
     (case cfsAccount account of
        None \<Rightarrow> False
      | Some cfs \<Rightarrow>
          (case status cfs of
             None \<Rightarrow> False
           | Some st \<Rightarrow> st \<noteq> [] \<and> st \<in> set PAD_PENDING_STATES))"

text \<open>The callback given to \<open>watch\<close> (lines 32-42).\<close>

definition watch_callback :: "store \<Rightarrow> store" where
  "watch_callback s =
     (if watch_condition (userPaymentAccount s)
      then addAlert \<lparr>severity = ''error'', category = PAYMENT_METHOD\<rparr>
             (s\<lparr>userSelectedPaymentMethod := DIRECT_PAY\<rparr>)
      else s)"

text \<open>
  \<open>watch\<close> is Vue's. A watcher keeps the value it saw last. Writing a different value to
  the ref queues the watcher's job; the job runs once the current synchronous code is
  done; it reads the ref and, when the value differs from the one kept, keeps the new
  one and runs the callback. A callback that writes to the ref it watches queues the
  job again, since a watcher with a callback may trigger itself. So the rule runs on
  every change, those it makes itself included, until a run leaves the ref as the
  watcher saw it. \<open>flushJobs\<close> runs the queued jobs of this watcher to the end.
\<close>

function flushJobs :: "store \<Rightarrow> store" where
  "flushJobs s =
     (if userSelectedPaymentMethod s = watcher_oldValue s then s
      else flushJobs (watch_callback (s\<lparr>watcher_oldValue := userSelectedPaymentMethod s\<rparr>)))"
  by pat_completeness auto
termination
  by (relation "measure (\<lambda>s. if userSelectedPaymentMethod s = watcher_oldValue s then 0
                               else if userSelectedPaymentMethod s = DIRECT_PAY then 1 else 2)")
    (auto simp: watch_callback_def addAlert_def)

text \<open>A caller assigns to \<open>userSelectedPaymentMethod\<close>; the watcher's jobs run after it.\<close>

definition select_method :: "PaymentMethod \<Rightarrow> store \<Rightarrow> store" where
  "select_method m s = flushJobs (s\<lparr>userSelectedPaymentMethod := m\<rparr>)"

definition resetPaymentOptions :: "store \<Rightarrow> store" where
  "resetPaymentOptions s =
     s\<lparr>userPaymentAccount := emptyAccount,
       userSelectedPaymentMethod := PAD,
       allowAlternatePaymentMethod := False,
       allowedPaymentMethods := []\<rparr>"

text \<open>\<open>cfsAccount?.bankAccountNumber ?? ''\<close>.\<close>

definition accountNum :: "ConnectPayAccount \<Rightarrow> string" where
  "accountNum account =
     (case cfsAccount account of
        None \<Rightarrow> []
      | Some cfs \<Rightarrow> (case bankAccountNumber cfs of None \<Rightarrow> [] | Some n \<Rightarrow> n))"

text \<open>
  \<open>initPaymentMethod\<close> (lines 51-93). The argument is the outcome of the awaited
  \<open>useBarApi\<close> call, \<open>Rejected\<close> for anything the \<open>try\<close> block throws before the
  response is there. The jobs of the watcher run while the call is awaited and once
  more when the function is done.
\<close>

definition initPaymentMethod :: "ConnectPayAccount promise \<Rightarrow> store \<Rightarrow> store" where
  "initPaymentMethod response s =
     (let s1 = flushJobs (resetPaymentOptions s) in
      case response of
        Rejected e \<Rightarrow>
          flushJobs (addAlert \<lparr>severity = ''error'', category = PAYMENT_METHOD\<rparr>
            (console_error (InitPaymentError e) s1))
      | Resolved account \<Rightarrow>
          (let s2 = s1\<lparr>userPaymentAccount := account,
                       allowedPaymentMethods :=
                         [(''Credit Card'', DIRECT_PAY),
                          (''PAD Account '' @ accountNum account, PAD)]\<rparr>;
               s3 = (if pending_status account
                     then s2\<lparr>userSelectedPaymentMethod := DIRECT_PAY\<rparr> else s2)
           in flushJobs (s3\<lparr>allowAlternatePaymentMethod := True\<rparr>)))"

subsection \<open>Resetting the store: $reset (lines 178-182)\<close>

text \<open>
  A function body as the sequence of what it does to the store: a write to a ref, or an
  \<open>await\<close>, where the function is suspended and other code runs (here the queued jobs
  of the watcher). \<open>run_steps\<close> gives the store at the end, \<open>states_after_writes\<close> the
  store after each write in turn, \<open>states_at_awaits\<close> the stores in which the function
  is suspended.
\<close>

datatype step = Write "store \<Rightarrow> store" | Await

primrec run_steps :: "step list \<Rightarrow> store \<Rightarrow> store" where
  "run_steps [] s = s"
| "run_steps (x # rest) s =
     (case x of
        Write w \<Rightarrow> run_steps rest (w s)
      | Await \<Rightarrow> run_steps rest (flushJobs s))"



text \<open>The body of \<open>$reset\<close>: lines 179, 180 and 181, with no \<open>await\<close>.\<close>

definition dollar_reset_steps :: "step list" where
  "dollar_reset_steps =
     [Write (\<lambda>s. s\<lparr>fees := []\<rparr>),
      Write (\<lambda>s. s\<lparr>folioNumber := []\<rparr>),
      Write (\<lambda>s. s\<lparr>feeInfo := []\<rparr>)]"

definition dollar_reset :: "store \<Rightarrow> store" where
  "dollar_reset s = run_steps dollar_reset_steps s"

section \<open>The second revision of the store (lines 205-407)\<close>

text \<open>
  The source holds the store twice. The second copy is transcribed here from its own
  lines, callbacks written out in place, for the functions the two copies are compared
  on: \<open>resetPaymentOptions\<close> (lines 245-250) and the fee ledger (lines 299-386).
\<close>

definition resetPaymentOptions_rev2 :: "store \<Rightarrow> store" where
  "resetPaymentOptions_rev2 s =
     s\<lparr>userPaymentAccount := emptyAccount,
       userSelectedPaymentMethod := DIRECT_PAY,
       allowAlternatePaymentMethod := False,
       allowedPaymentMethods := []\<rparr>"

definition addFee_rev2 :: "FeeInfo option \<Rightarrow> store \<Rightarrow> js_error + store" where
  "addFee_rev2 newFee s =
     (case newFee of
        None \<Rightarrow>
          (if fees s = [] then Inr (s\<lparr>console := console s @ [InvalidFee None]\<rparr>)
           else Inl TypeError)
      | Some nf \<Rightarrow>
          (case findIndex (\<lambda>fee :: PayFeesWidgetItem.
                  filingType fee = filingType nf \<and> filingTypeCode fee = filingTypeCode nf)
                (fees s) of
             Some i \<Rightarrow>
               (if quantity (fees s ! i) = None
                then Inr (s\<lparr>fees := (fees s)[i := (fees s ! i)\<lparr>quantity := Some number_one\<rparr>]\<rparr>)
                else Inr (s\<lparr>fees := (fees s)[i := (fees s ! i)
                            \<lparr>quantity := map_option plus_one (quantity (fees s ! i))\<rparr>]\<rparr>))
           | None \<Rightarrow>
               (if eq_null (total nf) \<or> eq_null (filingFees nf) \<or> eq_null (filingTypeCode nf)
                then Inr (s\<lparr>console := console s @ [InvalidFee (Some nf)]\<rparr>)
                else Inr (s\<lparr>fees := fees s @
                              [\<lparr>filingType = filingType nf, filingTypeCode = filingTypeCode nf,
                                total = total nf, filingFees = filingFees nf,
                                quantity = Some number_one, uiUuid = uuid_next s\<rparr>],
                            uuid_next := Suc (uuid_next s)\<rparr>))))"

definition removeFee_rev2 :: "FeeInfo option \<Rightarrow> store \<Rightarrow> js_error + store" where
  "removeFee_rev2 feeToRemove s =
     (case feeToRemove of
        None \<Rightarrow> (if fees s = [] then Inr s else Inl TypeError)
      | Some fr \<Rightarrow>
          (let same = (\<lambda>fee :: PayFeesWidgetItem.
                  filingType fee = filingType fr \<and> filingTypeCode fee = filingTypeCode fr);
               fee = findIndex same (fees s);
               decrease = (case fee of
                             None \<Rightarrow> False
                           | Some i \<Rightarrow>
                               (case quantity (fees s ! i) of
                                  None \<Rightarrow> False
                                | Some q \<Rightarrow> number_value q \<noteq> 0 \<and> number_value q > 1))
           in if decrease
              then (case fee of
                      None \<Rightarrow> Inr s
                    | Some i \<Rightarrow>
                        Inr (s\<lparr>fees := (fees s)[i := (fees s ! i)
                               \<lparr>quantity := map_option minus_one (quantity (fees s ! i))\<rparr>]\<rparr>))
              else (case findIndex same (fees s) of
                      None \<Rightarrow> Inr s
                    | Some index \<Rightarrow>
                        Inr (s\<lparr>fees := take index (fees s) @ drop (Suc index) (fees s)\<rparr>))))"

fun fetch_each_rev2 :: "fetchFee \<Rightarrow> FeeData list \<Rightarrow> store \<Rightarrow> (js_error + unit) \<times> store" where
  "fetch_each_rev2 api [] s = (Inr (), s)"
| "fetch_each_rev2 api (filingDataItem # rest) s =
     (case api (length (fetch_calls s)) filingDataItem of
        Rejected e \<Rightarrow> (Inl e, s\<lparr>fetch_calls := fetch_calls s @ [filingDataItem]\<rparr>)
      | Resolved fee \<Rightarrow>
          (case fee of
             None \<Rightarrow> fetch_each_rev2 api rest (s\<lparr>fetch_calls := fetch_calls s @ [filingDataItem]\<rparr>)
           | Some f \<Rightarrow>
               fetch_each_rev2 api rest
                 (s\<lparr>fetch_calls := fetch_calls s @ [filingDataItem],
                    feeInfo := feeInfo s @ [(filingDataItem, f)]\<rparr>)))"

definition loadFeeTypesAndCharges_rev2 ::
  "fetchFee \<Rightarrow> string \<Rightarrow> FeeData list \<Rightarrow> store \<Rightarrow> (js_error + unit) \<times> store" where
  "loadFeeTypesAndCharges_rev2 api newFolioNumber filingData s =
     fetch_each_rev2 api filingData (s\<lparr>folioNumber := newFolioNumber\<rparr>)"

function getFeeInfo_rev2 ::
  "fetchFee \<Rightarrow> FeeData \<Rightarrow> bool \<Rightarrow> store \<Rightarrow> (js_error + FeeInfo option) \<times> store" where
  "getFeeInfo_rev2 api searchFilingData tryLoadIfNotCached s =
     (case find (\<lambda>(filingData, _).
                entityType filingData = entityType searchFilingData \<and>
                filingTypeCode_d filingData = filingTypeCode_d searchFilingData) (feeInfo s) of
        Some feeInfoItem \<Rightarrow> (Inr (Some (snd feeInfoItem)), s)
      | None \<Rightarrow>
          if tryLoadIfNotCached
          then (case loadFeeTypesAndCharges_rev2 api (folioNumber s) [searchFilingData] s of
                  (Inl e, s') \<Rightarrow> (Inl e, s')
                | (Inr u, s') \<Rightarrow> getFeeInfo_rev2 api searchFilingData False s')
          else (Inr None, s))"
  by pat_completeness auto
termination
  by (relation "measure (\<lambda>(api, d, tryLoad, s). if tryLoad then 1 else 0)") auto

definition addPayFees_rev2 :: "feeType \<Rightarrow> fetchFee \<Rightarrow> string \<Rightarrow> store \<Rightarrow> store" where
  "addPayFees_rev2 table api feeCode s =
     (case getFeeInfo_rev2 api (table feeCode) True s of
        (Inl e, s') \<Rightarrow> s'\<lparr>alerts := alerts s' @ [\<lparr>severity = ''error'', category = FEE_INFO\<rparr>]\<rparr>
      | (Inr feeInfo', s') \<Rightarrow>
          (case feeInfo' of
             None \<Rightarrow> s'
           | Some info \<Rightarrow>
               (case addFee_rev2 (Some info) s' of
                  Inl e \<Rightarrow> s'\<lparr>alerts := alerts s' @ [\<lparr>severity = ''error'', category = FEE_INFO\<rparr>]\<rparr>
                | Inr s'' \<Rightarrow> s'')))"

definition dollar_reset_rev2_steps :: "step list" where
  "dollar_reset_rev2_steps =
     [Write (\<lambda>s. s\<lparr>fees := []\<rparr>),
      Write (\<lambda>s. s\<lparr>folioNumber := []\<rparr>),
      Write (\<lambda>s. s\<lparr>feeInfo := []\<rparr>)]"

definition dollar_reset_rev2 :: "store \<Rightarrow> store" where
  "dollar_reset_rev2 s = run_steps dollar_reset_rev2_steps s"

section \<open>Sample values\<close>

text \<open>The fee of the annual report, the same fee with no total, and what to look it up by.\<close>

definition bcann_fee :: FeeInfo where
  "bcann_fee = \<lparr>filingType = Val ''ANNUAL_REPORT'', filingTypeCode = Val ''BCANN'',
     total = Val 20, filingFees = Val 20\<rparr>"

definition bcann_fee_no_total :: FeeInfo where
  "bcann_fee_no_total = bcann_fee\<lparr>total := Null\<rparr>"

definition bcann_data :: FeeData where
  "bcann_data = \<lparr>entityType = ''BC'', filingTypeCode_d = ''BCANN''\<rparr>"

definition other_data :: FeeData where
  "other_data = \<lparr>entityType = ''BC'', filingTypeCode_d = ''OTHER''\<rparr>"

text \<open>
  The store after one \<open>addFee\<close>; the store after \<open>2^53\<close> of them; a store whose only entry
  has no quantity; and the store after one \<open>addFee\<close> and one \<open>loadFeeTypesAndCharges\<close>.
\<close>

definition one_fee_store :: store where
  "one_fee_store = ledger_run [AddFee (Some bcann_fee)] initial_store"

definition saturated_store :: store where
  "saturated_store = ledger_run (replicate (nat two53) (AddFee (Some bcann_fee))) initial_store"

definition no_quantity_store :: store where
  "no_quantity_store = initial_store\<lparr>fees := [(new_item bcann_fee 0)\<lparr>quantity := None\<rparr>]\<rparr>"

text \<open>
  A pay API that knows the annual report fee and nothing else, and one whose calls all
  reject but those for the annual report.
\<close>

definition bcann_api :: fetchFee where
  "bcann_api n d = (if d = bcann_data then Resolved (Some bcann_fee) else Resolved None)"

definition failing_api :: fetchFee where
  "failing_api n d = (if d = bcann_data then Resolved (Some bcann_fee) else Rejected FetchError)"

text \<open>
  An account whose PAD is waiting for activation, and the store after \<open>initPaymentMethod\<close>
  has fetched it.
\<close>

definition pending_account :: ConnectPayAccount where
  "pending_account =
     \<lparr>cfsAccount = Some \<lparr>status = Some ''PENDING_PAD_ACTIVATION'', bankAccountNumber = Some ''1234''\<rparr>,
      paymentMethod = Some ''PAD''\<rparr>"

definition pending_store :: store where
  "pending_store = initPaymentMethod (Resolved pending_account) initial_store"

section \<open>Notions the properties are stated with\<close>

text \<open>
  What a batch of lookups leaves in the cache: the pairs of the calls that resolved to a
  fee, in the order of the calls, the first of them being call number \<open>n\<close>.
\<close>

fun resolved_pairs :: "fetchFee \<Rightarrow> nat \<Rightarrow> FeeData list \<Rightarrow> (FeeData \<times> FeeInfo) list" where
  "resolved_pairs api n [] = []"
| "resolved_pairs api n (d # ds) =
     (case api n d of Resolved (Some fee) \<Rightarrow> [(d, fee)] | _ \<Rightarrow> []) @ resolved_pairs api (Suc n) ds"

definition rejects :: "FeeInfo option promise \<Rightarrow> bool" where
  "rejects r = (case r of Rejected e \<Rightarrow> True | Resolved v \<Rightarrow> False)"

text \<open>The quantities of the ledger, as integers.\<close>

definition quantities :: "store \<Rightarrow> int option list" where
  "quantities s = map (\<lambda>fee. map_option number_value (quantity fee)) (fees s)"

text \<open>The alert both the watcher and \<open>initPaymentMethod\<close> raise.\<close>

definition pm_alert :: Alert where
  "pm_alert = \<lparr>severity = ''error'', category = PAYMENT_METHOD\<rparr>"


definition loaded_store :: store where
  "loaded_store = initial_store\<lparr>fetch_calls := [bcann_data], feeInfo := [(bcann_data, bcann_fee)]\<rparr>"

declare getFeeInfo.simps [simp del]

declare getFeeInfo_rev2.simps [simp del]

declare flushJobs.simps [simp del]

section \<open>Properties\<close>

subsection \<open>Arrays\<close>

lemma findIndex_None: "findIndex P xs = None \<longleftrightarrow> (\<forall>x \<in> set xs. \<not> P x)"
  by (induction xs) auto

lemma findIndex_Some:
  "findIndex P xs = Some i \<Longrightarrow> i < length xs \<and> P (xs ! i)"
  by (induction xs arbitrary: i) (auto split: if_splits)

lemma findIndex_append_miss:
  "findIndex P xs = None \<Longrightarrow> findIndex P (xs @ [x]) = (if P x then Some (length xs) else None)"
  by (induction xs) (auto split: if_splits)

lemma findIndex_update:
  "findIndex P xs = Some i \<Longrightarrow> P y \<Longrightarrow> findIndex P (xs[i := y]) = Some i"
  by (induction xs arbitrary: i) (auto split: if_splits)

lemma splice1_snoc: "splice1 (length xs) (xs @ [x]) = xs"
  by (simp add: splice1_def)

lemma distinct_map_splice:
  "distinct (map f xs) \<Longrightarrow> distinct (map f (take i xs @ drop (Suc i) xs))"
proof (induction xs arbitrary: i)
  case Nil
  then show ?case by simp
next
  case (Cons x xs)
  show ?case
  proof (cases i)
    case 0
    with Cons.prems show ?thesis by simp
  next
    case (Suc j)
    have "f x \<notin> f ` set (take j xs)" "f x \<notin> f ` set (drop (Suc j) xs)"
      using Cons.prems by (auto dest: in_set_takeD in_set_dropD)
    with Cons Suc show ?thesis by auto
  qed
qed

lemma find_append_hit: "find P xs = Some x \<Longrightarrow> find P (xs @ ys) = Some x"
  by (induction xs) (auto split: if_splits)

lemma find_append_miss: "find P xs = None \<Longrightarrow> find P (xs @ ys) = find P ys"
  by (induction xs) (auto split: if_splits)

subsection \<open>Quantities\<close>

lemma two53_gt_one: "1 < two53"
  by (simp add: two53_def)

lemma value_number_one [simp]: "number_value number_one = 1"
  by (rule number_one.rep_eq)

lemma value_plus_one:
  "number_value (plus_one q) = (if number_value q < two53 then number_value q + 1 else number_value q)"
  by (rule plus_one.rep_eq)

lemma value_minus_one:
  "number_value (minus_one q) = (if - two53 < number_value q then number_value q - 1 else number_value q)"
  by (rule minus_one.rep_eq)

lemma value_bounds: "- two53 \<le> number_value q" "number_value q \<le> two53"
  using number_value [of q] by simp_all

lemma plus_one_positive: "1 \<le> number_value q \<Longrightarrow> 1 \<le> number_value (plus_one q)"
  by (simp add: value_plus_one)

lemma minus_one_positive: "1 < number_value q \<Longrightarrow> 1 \<le> number_value (minus_one q)"
  using two53_gt_one by (simp add: value_minus_one)

lemma minus_plus_one: "number_value q < two53 \<Longrightarrow> minus_one (plus_one q) = q"
proof -
  assume a: "number_value q < two53"
  have "- two53 < number_value q + 1"
    using value_bounds(1) [of q] by simp
  with a have "number_value (minus_one (plus_one q)) = number_value q"
    by (simp add: value_minus_one value_plus_one)
  then show ?thesis
    by (simp add: number_value_inject)
qed

lemma value_plus_one_one [simp]: "number_value (plus_one number_one) = 2"
  using two53_gt_one by (simp add: value_plus_one)

lemma minus_plus_number_one [simp]: "minus_one (plus_one number_one) = number_one"
  using two53_gt_one by (simp add: minus_plus_one)

subsection \<open>The ledger keeps its invariant\<close>

lemma fee_key_quantity [simp]: "fee_key (fee\<lparr>quantity := q\<rparr>) = fee_key fee"
  by (simp add: fee_key_def)

lemma fee_matches_quantity [simp]: "fee_matches nf (fee\<lparr>quantity := q\<rparr>) = fee_matches nf fee"
  by (simp add: fee_matches_def)

lemma fee_matches_key: "fee_matches nf fee \<longleftrightarrow> fee_key fee = (filingType nf, filingTypeCode nf)"
  by (auto simp: fee_matches_def fee_key_def)

lemma fee_matches_new_item: "fee_matches nf (new_item nf u)"
  by (simp add: fee_matches_def new_item_def)

lemma map_key_update:
  "i < length fs \<Longrightarrow> map fee_key (fs[i := (fs ! i)\<lparr>quantity := q\<rparr>]) = map fee_key fs"
  by (simp add: map_update list_update_same_conv)

lemma ledger_inv_update:
  assumes "ledger_inv fs" "i < length fs" "1 \<le> number_value q"
  shows "ledger_inv (fs[i := (fs ! i)\<lparr>quantity := Some q\<rparr>])"
  using assms
  by (auto simp: ledger_inv_def map_key_update list_all_iff positive_quantity_def
      dest!: set_update_subset_insert[THEN subsetD])

lemma ledger_inv_splice:
  assumes "ledger_inv fs"
  shows "ledger_inv (splice1 i fs)"
  using assms
  by (auto simp: ledger_inv_def splice1_def list_all_iff distinct_map_splice
      simp del: map_append dest: in_set_takeD in_set_dropD)

lemma ledger_inv_snoc:
  assumes "ledger_inv fs" "findIndex (fee_matches nf) fs = None"
  shows "ledger_inv (fs @ [new_item nf u])"
proof -
  from assms(2) have "(filingType nf, filingTypeCode nf) \<notin> fee_key ` set fs"
    by (auto simp: findIndex_None fee_matches_key)
  moreover have "fee_key (new_item nf u) = (filingType nf, filingTypeCode nf)"
    by (simp add: fee_key_def new_item_def)
  moreover have "positive_quantity (new_item nf u)"
    by (simp add: positive_quantity_def new_item_def)
  ultimately show ?thesis
    using assms(1) by (simp add: ledger_inv_def)
qed

lemma ledger_inv_nth:
  assumes "ledger_inv fs" "i < length fs"
  obtains q where "quantity (fs ! i) = Some q" "1 \<le> number_value q"
proof -
  from assms have "positive_quantity (fs ! i)"
    by (simp add: ledger_inv_def list_all_length)
  then show ?thesis
    using that by (auto simp: positive_quantity_def split: option.splits)
qed

lemma fees_console_error [simp]: "fees (console_error e s) = fees s"
  by (simp add: console_error_def)

lemma addFee_null:
  "addFee None s = (if fees s = [] then Inr (console_error (InvalidFee None) s) else Inl TypeError)"
  by (simp add: addFee_def)

lemma addFee_found:
  assumes "findIndex (fee_matches nf) (fees s) = Some i"
  shows "addFee (Some nf) s =
     Inr (s\<lparr>fees := (fees s)[i := (fees s ! i)\<lparr>quantity :=
        Some (case quantity (fees s ! i) of None \<Rightarrow> number_one | Some q \<Rightarrow> plus_one q)\<rparr>]\<rparr>)"
  using assms by (simp add: addFee_def Let_def split: option.splits)

lemma addFee_new:
  assumes "findIndex (fee_matches nf) (fees s) = None"
  shows "addFee (Some nf) s =
     (if eq_null (total nf) \<or> eq_null (filingFees nf) \<or> eq_null (filingTypeCode nf)
      then Inr (console_error (InvalidFee (Some nf)) s)
      else Inr (s\<lparr>fees := fees s @ [new_item nf (uuid_next s)], uuid_next := Suc (uuid_next s)\<rparr>))"
  using assms by (simp add: addFee_def)

lemma addFee_inv:
  assumes inv: "ledger_inv (fees s)" and r: "addFee f s = Inr s'"
  shows "ledger_inv (fees s')"
proof (cases f)
  case None
  with r have "fees s' = fees s"
    by (auto simp: addFee_null split: if_splits)
  with inv show ?thesis by simp
next
  case (Some nf)
  note f = this
  show ?thesis
  proof (cases "findIndex (fee_matches nf) (fees s)")
    case None
    from r have "fees s' = fees s \<or> fees s' = fees s @ [new_item nf (uuid_next s)]"
      unfolding f addFee_new [OF None] by (auto split: if_splits)
    with inv None show ?thesis
      by (auto simp: ledger_inv_snoc)
  next
    case (Some i)
    then have i: "i < length (fees s)"
      by (simp add: findIndex_Some)
    from inv i obtain q where q: "quantity (fees s ! i) = Some q" "1 \<le> number_value q"
      by (rule ledger_inv_nth)
    from r have "fees s' = (fees s)[i := (fees s ! i)\<lparr>quantity := Some (plus_one q)\<rparr>]"
      unfolding f addFee_found [OF Some] by (auto simp: q)
    with inv i q show ?thesis
      by (simp add: ledger_inv_update plus_one_positive)
  qed
qed

lemma remove_entry_inv: "ledger_inv (fees s) \<Longrightarrow> ledger_inv (fees (remove_entry fr s))"
  by (simp add: remove_entry_def ledger_inv_splice split: option.splits)

lemma removeFee_null: "removeFee None s = (if fees s = [] then Inr s else Inl TypeError)"
  by (simp add: removeFee_def)

lemma removeFee_item:
  "removeFee (Some fr) s =
     (case findIndex (fee_matches fr) (fees s) of
        None \<Rightarrow> Inr s
      | Some i \<Rightarrow>
          (case quantity (fees s ! i) of
             None \<Rightarrow> Inr (s\<lparr>fees := splice1 i (fees s)\<rparr>)
           | Some q \<Rightarrow>
               if 1 < number_value q
               then Inr (s\<lparr>fees := (fees s)[i := (fees s ! i)\<lparr>quantity := Some (minus_one q)\<rparr>]\<rparr>)
               else Inr (s\<lparr>fees := splice1 i (fees s)\<rparr>)))"
  by (simp add: removeFee_def remove_entry_def Let_def split: option.splits)

lemma removeFee_inv:
  assumes inv: "ledger_inv (fees s)" and r: "removeFee f s = Inr s'"
  shows "ledger_inv (fees s')"
proof (cases f)
  case None
  with r have "s' = s"
    by (simp add: removeFee_null split: if_splits)
  with inv show ?thesis by simp
next
  case (Some fr)
  note f = this
  show ?thesis
  proof (cases "findIndex (fee_matches fr) (fees s)")
    case None
    with r f have "s' = s"
      by (simp add: removeFee_item)
    with inv show ?thesis by simp
  next
    case (Some i)
    then have i: "i < length (fees s)"
      by (simp add: findIndex_Some)
    from inv i obtain q where q: "quantity (fees s ! i) = Some q" "1 \<le> number_value q"
      by (rule ledger_inv_nth)
    show ?thesis
    proof (cases "1 < number_value q")
      case True
      with r f Some q
      have "fees s' = (fees s)[i := (fees s ! i)\<lparr>quantity := Some (minus_one q)\<rparr>]"
        by (auto simp: removeFee_item)
      with inv i True show ?thesis
        by (simp add: ledger_inv_update minus_one_positive)
    next
      case False
      with r f Some q have "fees s' = splice1 i (fees s)"
        by (auto simp: removeFee_item)
      with inv show ?thesis
        by (simp add: ledger_inv_splice)
    qed
  qed
qed

lemma ledger_step_inv: "ledger_inv (fees s) \<Longrightarrow> ledger_inv (fees (ledger_step c s))"
proof (cases c)
  case (AddFee f)
  assume "ledger_inv (fees s)"
  then show ?thesis
    unfolding AddFee by (cases "addFee f s") (simp_all add: after_call_def addFee_inv)
next
  case (RemoveFee f)
  assume "ledger_inv (fees s)"
  then show ?thesis
    unfolding RemoveFee by (cases "removeFee f s") (simp_all add: after_call_def removeFee_inv)
qed

lemma ledger_run_inv: "ledger_inv (fees s) \<Longrightarrow> ledger_inv (fees (ledger_run cs s))"
  by (induction cs arbitrary: s) (simp_all add: ledger_step_inv)

text \<open>
  C1. Whatever sequence of \<open>addFee\<close> and \<open>removeFee\<close> calls is made on a store whose
  ledger is empty, no two entries of the ledger have the same
  (\<open>filingType\<close>, \<open>filingTypeCode\<close>) key, and every entry has a quantity of at least one.
\<close>

theorem C1_ledger_invariant:
  assumes "fees s = []"
  shows "distinct (map fee_key (fees (ledger_run cs s))) \<and>
         (\<forall>fee \<in> set (fees (ledger_run cs s)).
            \<exists>q. quantity fee = Some q \<and> 1 \<le> number_value q)"
proof -
  from assms have "ledger_inv (fees s)"
    by (simp add: ledger_inv_def)
  then have "ledger_inv (fees (ledger_run cs s))"
    by (rule ledger_run_inv)
  then show ?thesis
    by (auto simp: ledger_inv_def list_all_iff positive_quantity_def split: option.splits)
qed

lemma run_add_add_remove:
  "fees (ledger_run [AddFee (Some bcann_fee), AddFee (Some bcann_fee), RemoveFee (Some bcann_fee)]
      initial_store) = [new_item bcann_fee 0]"
  by (simp add: initial_store_def after_call_def addFee_def removeFee_def remove_entry_def
      fee_matches_def new_item_def bcann_fee_def)

text \<open>
  C1 at the sequence add, add, remove of the annual report fee on the initial store: one
  entry is left, with quantity one.
\<close>

theorem C1_witness:
  "fees initial_store = [] \<and>
   distinct (map fee_key (fees (ledger_run
     [AddFee (Some bcann_fee), AddFee (Some bcann_fee), RemoveFee (Some bcann_fee)] initial_store))) \<and>
   fees (ledger_run
     [AddFee (Some bcann_fee), AddFee (Some bcann_fee), RemoveFee (Some bcann_fee)] initial_store)
     = [new_item bcann_fee 0]"
proof -
  have e: "fees initial_store = []"
    by (simp add: initial_store_def)
  have d: "distinct (map fee_key (fees (ledger_run
     [AddFee (Some bcann_fee), AddFee (Some bcann_fee), RemoveFee (Some bcann_fee)] initial_store)))"
    by (rule C1_ledger_invariant [OF e, THEN conjunct1])
  from e d run_add_add_remove show ?thesis
    by (intro conjI)
qed

subsection \<open>addFee on an item with missing details\<close>

lemma one_fee_store_eq:
  "one_fee_store = initial_store\<lparr>fees := [new_item bcann_fee 0], uuid_next := 1\<rparr>"
  by (simp add: one_fee_store_def initial_store_def after_call_def addFee_def bcann_fee_def)

text \<open>
  C2 as stated fails. The ledger holds the annual report fee with quantity one; \<open>addFee\<close>
  of the same fee with a \<open>null\<close> total finds the entry first, raises its quantity to two
  and logs nothing: the values are only checked when no entry is found.
\<close>

theorem C2_counterexample:
  "eq_null (total bcann_fee_no_total) \<and>
   quantities one_fee_store = [Some 1] \<and>
   addFee (Some bcann_fee_no_total) one_fee_store =
     Inr (one_fee_store\<lparr>fees := [(new_item bcann_fee 0)\<lparr>quantity := Some (plus_one number_one)\<rparr>]\<rparr>) \<and>
   number_value (plus_one number_one) = 2 \<and>
   addFee (Some bcann_fee_no_total) one_fee_store \<noteq>
     Inr (console_error (InvalidFee (Some bcann_fee_no_total)) one_fee_store)"
  by (simp add: one_fee_store_eq initial_store_def addFee_def fee_matches_def new_item_def
      bcann_fee_def bcann_fee_no_total_def console_error_def quantities_def)

text \<open>
  C2, amended. When \<open>total\<close>, \<open>filingFees\<close> or \<open>filingTypeCode\<close> of the item is \<open>null\<close>
  or absent and the ledger has no entry with the item's key, \<open>addFee\<close> logs the item and
  changes nothing else; it returns normally.
\<close>

theorem C2_addFee_invalid:
  assumes "eq_null (total nf) \<or> eq_null (filingFees nf) \<or> eq_null (filingTypeCode nf)"
    and "findIndex (fee_matches nf) (fees s) = None"
  shows "addFee (Some nf) s = Inr (s\<lparr>console := console s @ [InvalidFee (Some nf)]\<rparr>)"
  using assms by (simp add: addFee_new console_error_def)

text \<open>
  C2, amended, at the annual report fee with a \<open>null\<close> total on the initial store.
\<close>

theorem C2_witness:
  "eq_null (total bcann_fee_no_total) \<and>
   findIndex (fee_matches bcann_fee_no_total) (fees initial_store) = None \<and>
   addFee (Some bcann_fee_no_total) initial_store =
     Inr (initial_store\<lparr>console := [InvalidFee (Some bcann_fee_no_total)]\<rparr>)"
proof -
  have a: "eq_null (total bcann_fee_no_total) \<or> eq_null (filingFees bcann_fee_no_total)
      \<or> eq_null (filingTypeCode bcann_fee_no_total)"
    by (simp add: bcann_fee_no_total_def)
  have b: "findIndex (fee_matches bcann_fee_no_total) (fees initial_store) = None"
    by (simp add: initial_store_def)
  have c: "console initial_store = []"
    by (simp add: initial_store_def)
  from C2_addFee_invalid [OF a b] b c show ?thesis
    by (simp add: bcann_fee_no_total_def)
qed

subsection \<open>The watcher of the selected payment method\<close>

lemma watch_condition_empty: "\<not> watch_condition emptyAccount"
  by (simp add: watch_condition_def emptyAccount_def)

lemma flushJobs_quiet:
  "userSelectedPaymentMethod s = watcher_oldValue s \<Longrightarrow> flushJobs s = s"
  by (simp add: flushJobs.simps)

lemma flushJobs_no_pending:
  assumes "\<not> watch_condition (userPaymentAccount s)"
  shows "flushJobs s = s\<lparr>watcher_oldValue := userSelectedPaymentMethod s\<rparr>"
proof (cases "userSelectedPaymentMethod s = watcher_oldValue s")
  case True
  then show ?thesis by (simp add: flushJobs_quiet)
next
  case False
  let ?s1 = "s\<lparr>watcher_oldValue := userSelectedPaymentMethod s\<rparr>"
  from assms have "watch_callback ?s1 = ?s1"
    by (simp add: watch_callback_def)
  with False have "flushJobs s = flushJobs ?s1"
    by (simp add: flushJobs.simps [of s])
  then show ?thesis
    by (simp add: flushJobs_quiet)
qed

lemma flushJobs_pending:
  assumes "watch_condition (userPaymentAccount s)"
    and "userSelectedPaymentMethod s \<noteq> watcher_oldValue s"
  shows "flushJobs s =
     (if userSelectedPaymentMethod s = DIRECT_PAY
      then s\<lparr>userSelectedPaymentMethod := DIRECT_PAY, watcher_oldValue := DIRECT_PAY,
             alerts := alerts s @ [pm_alert]\<rparr>
      else s\<lparr>userSelectedPaymentMethod := DIRECT_PAY, watcher_oldValue := DIRECT_PAY,
             alerts := alerts s @ [pm_alert, pm_alert]\<rparr>)"
proof (cases "userSelectedPaymentMethod s = DIRECT_PAY")
  case True
  let ?s1 = "watch_callback (s\<lparr>watcher_oldValue := userSelectedPaymentMethod s\<rparr>)"
  from assms(1) True
  have s1: "?s1 = s\<lparr>userSelectedPaymentMethod := DIRECT_PAY, watcher_oldValue := DIRECT_PAY,
             alerts := alerts s @ [pm_alert]\<rparr>"
    by (simp add: watch_callback_def addAlert_def pm_alert_def)
  from assms(2) have "flushJobs s = flushJobs ?s1"
    by (simp add: flushJobs.simps [of s])
  also have "\<dots> = ?s1"
    unfolding s1 by (simp add: flushJobs_quiet)
  finally show ?thesis
    using True s1 by simp
next
  case False
  then have pad: "userSelectedPaymentMethod s = PAD"
    by (cases "userSelectedPaymentMethod s") simp_all
  let ?s1 = "watch_callback (s\<lparr>watcher_oldValue := userSelectedPaymentMethod s\<rparr>)"
  from assms(1) pad
  have s1: "?s1 = s\<lparr>userSelectedPaymentMethod := DIRECT_PAY, watcher_oldValue := PAD,
             alerts := alerts s @ [pm_alert]\<rparr>"
    by (simp add: watch_callback_def addAlert_def pm_alert_def)
  let ?s2 = "watch_callback (?s1\<lparr>watcher_oldValue := userSelectedPaymentMethod ?s1\<rparr>)"
  from assms(1)
  have s2: "?s2 = s\<lparr>userSelectedPaymentMethod := DIRECT_PAY, watcher_oldValue := DIRECT_PAY,
             alerts := alerts s @ [pm_alert, pm_alert]\<rparr>"
    unfolding s1 by (simp add: watch_callback_def addAlert_def pm_alert_def)
  from assms(2) have "flushJobs s = flushJobs ?s1"
    by (simp add: flushJobs.simps [of s])
  also have "\<dots> = flushJobs ?s2"
    by (subst flushJobs.simps) (simp add: s1)
  also have "\<dots> = ?s2"
    unfolding s2 by (simp add: flushJobs_quiet)
  finally show ?thesis
    using False s2 by simp
qed

lemma pending_store_eq:
  "pending_store =
     initial_store\<lparr>userPaymentAccount := pending_account,
       allowedPaymentMethods := [(''Credit Card'', DIRECT_PAY), (''PAD Account 1234'', PAD)],
       allowAlternatePaymentMethod := True,
       alerts := [pm_alert]\<rparr>"
proof -
  have 1: "flushJobs (resetPaymentOptions initial_store) =
      (resetPaymentOptions initial_store)\<lparr>watcher_oldValue := PAD\<rparr>"
    by (simp add: flushJobs_no_pending resetPaymentOptions_def watch_condition_empty)
  have p: "pending_status pending_account" and w: "watch_condition pending_account"
    by (simp_all add: pending_status_def watch_condition_def pending_account_def
        PAD_PENDING_STATES_def)
  let ?s3 = "initial_store\<lparr>userPaymentAccount := pending_account,
       allowedPaymentMethods := [(''Credit Card'', DIRECT_PAY), (''PAD Account 1234'', PAD)],
       allowAlternatePaymentMethod := True, watcher_oldValue := PAD\<rparr>"
  have "pending_store = flushJobs ?s3"
    by (simp add: pending_store_def initPaymentMethod_def 1 p)
      (simp add: resetPaymentOptions_def initial_store_def accountNum_def pending_account_def)
  also have "\<dots> = ?s3\<lparr>userSelectedPaymentMethod := DIRECT_PAY, watcher_oldValue := DIRECT_PAY,
             alerts := alerts ?s3 @ [pm_alert]\<rparr>"
    by (subst flushJobs_pending) (simp_all add: w initial_store_def)
  also have "\<dots> = initial_store\<lparr>userPaymentAccount := pending_account,
       allowedPaymentMethods := [(''Credit Card'', DIRECT_PAY), (''PAD Account 1234'', PAD)],
       allowAlternatePaymentMethod := True,
       alerts := [pm_alert]\<rparr>"
    by (simp add: initial_store_def)
  finally show ?thesis .
qed

lemma select_pad_pending_store:
  "select_method PAD pending_store = pending_store\<lparr>alerts := [pm_alert, pm_alert, pm_alert]\<rparr>"
proof -
  let ?s0 = "pending_store\<lparr>userSelectedPaymentMethod := PAD\<rparr>"
  have w: "watch_condition (userPaymentAccount ?s0)"
    by (simp add: pending_store_eq watch_condition_def pending_account_def PAD_PENDING_STATES_def)
  have n: "userSelectedPaymentMethod ?s0 \<noteq> watcher_oldValue ?s0"
    by (simp add: pending_store_eq initial_store_def)
  from flushJobs_pending [OF w n] show ?thesis
    by (simp add: select_method_def) (simp add: pending_store_eq initial_store_def)
qed

text \<open>
  C3 as stated fails. \<open>initPaymentMethod\<close> has fetched an account that is waiting for
  PAD activation and the selection is \<open>DIRECT_PAY\<close>; selecting \<open>PAD\<close> ends with
  \<open>DIRECT_PAY\<close> selected and two more alerts, not one: the watcher runs for the caller's
  change, and again for its own change back to \<open>DIRECT_PAY\<close>, and the callback raises
  the alert on each run.
\<close>

theorem C3_counterexample:
  "status (the (cfsAccount (userPaymentAccount pending_store))) = Some ''PENDING_PAD_ACTIVATION'' \<and>
   userSelectedPaymentMethod pending_store = DIRECT_PAY \<and>
   userSelectedPaymentMethod (select_method PAD pending_store) = DIRECT_PAY \<and>
   alerts (select_method PAD pending_store) = alerts pending_store @ [pm_alert, pm_alert] \<and>
   alerts (select_method PAD pending_store) \<noteq> alerts pending_store @ [pm_alert] \<and>
   category pm_alert = PAYMENT_METHOD"
  by (simp add: select_pad_pending_store)
    (simp add: pending_store_eq initial_store_def pending_account_def pm_alert_def)

text \<open>
  C3, amended. When the status of the cached account is \<open>PENDING\<close> or
  \<open>PENDING_PAD_ACTIVATION\<close>, the selection is \<open>DIRECT_PAY\<close> and the watcher has seen it,
  selecting \<open>PAD\<close> ends with \<open>DIRECT_PAY\<close> selected again and exactly two alerts of
  category \<open>PAYMENT_METHOD\<close> added; nothing else changes, and the watcher comes to rest
  (\<open>flushJobs\<close> is a total function).
\<close>

theorem C3_watcher_two_alerts:
  assumes "cfsAccount (userPaymentAccount s) = Some cfs"
    and "status cfs = Some st"
    and "st = ''PENDING'' \<or> st = ''PENDING_PAD_ACTIVATION''"
    and "userSelectedPaymentMethod s = DIRECT_PAY"
    and "watcher_oldValue s = DIRECT_PAY"
  shows "select_method PAD s = s\<lparr>alerts := alerts s @ [pm_alert, pm_alert]\<rparr>"
proof -
  let ?s0 = "s\<lparr>userSelectedPaymentMethod := PAD\<rparr>"
  from assms(1-3) have c: "watch_condition (userPaymentAccount ?s0)"
    by (auto simp: watch_condition_def PAD_PENDING_STATES_def)
  from assms(5) have "userSelectedPaymentMethod ?s0 \<noteq> watcher_oldValue ?s0"
    by simp
  from flushJobs_pending [OF c this] have "flushJobs ?s0 =
      ?s0\<lparr>userSelectedPaymentMethod := DIRECT_PAY, watcher_oldValue := DIRECT_PAY,
           alerts := alerts ?s0 @ [pm_alert, pm_alert]\<rparr>"
    by simp
  also have "\<dots> = s\<lparr>alerts := alerts s @ [pm_alert, pm_alert]\<rparr>"
    using assms(4,5) by (cases s) simp
  finally show ?thesis
    by (simp add: select_method_def)
qed

text \<open>
  C3, amended, at the store that has fetched the account waiting for PAD activation.
\<close>

theorem C3_witness:
  "cfsAccount (userPaymentAccount pending_store) =
     Some \<lparr>status = Some ''PENDING_PAD_ACTIVATION'', bankAccountNumber = Some ''1234''\<rparr> \<and>
   userSelectedPaymentMethod pending_store = DIRECT_PAY \<and>
   watcher_oldValue pending_store = DIRECT_PAY \<and>
   alerts pending_store = [pm_alert] \<and>
   select_method PAD pending_store = pending_store\<lparr>alerts := [pm_alert, pm_alert, pm_alert]\<rparr>"
proof -
  have a: "cfsAccount (userPaymentAccount pending_store) =
     Some \<lparr>status = Some ''PENDING_PAD_ACTIVATION'', bankAccountNumber = Some ''1234''\<rparr>"
    by (simp add: pending_store_eq pending_account_def)
  have b: "status \<lparr>status = Some ''PENDING_PAD_ACTIVATION'', bankAccountNumber = Some ''1234''\<rparr>
      = Some ''PENDING_PAD_ACTIVATION''"
    by simp
  have c: "''PENDING_PAD_ACTIVATION'' = ''PENDING'' \<or>
      ''PENDING_PAD_ACTIVATION'' = ''PENDING_PAD_ACTIVATION''"
    by simp
  have d: "userSelectedPaymentMethod pending_store = DIRECT_PAY"
    and e: "watcher_oldValue pending_store = DIRECT_PAY"
    and f: "alerts pending_store = [pm_alert]"
    by (simp_all add: pending_store_eq initial_store_def)
  from C3_watcher_two_alerts [OF a b c d e] f
  have "select_method PAD pending_store = pending_store\<lparr>alerts := [pm_alert, pm_alert, pm_alert]\<rparr>"
    by simp
  with a d e f show ?thesis
    by (intro conjI)
qed

subsection \<open>addFee followed by removeFee\<close>

lemma ledger_run_snoc: "ledger_run (cs @ [c]) s = ledger_step c (ledger_run cs s)"
  by (induction cs arbitrary: s) simp_all

lemma add_to_single:
  assumes "fees s = [e]" "fee_matches nf e" "quantity e = Some q"
  shows "fees (ledger_step (AddFee (Some nf)) s) = [e\<lparr>quantity := Some (plus_one q)\<rparr>]"
proof -
  from assms have "findIndex (fee_matches nf) (fees s) = Some 0"
    by simp
  from addFee_found [OF this] assms show ?thesis
    by (simp add: after_call_def)
qed

lemma remove_from_single:
  assumes "fees s = [e]" "fee_matches nf e" "quantity e = Some q" "1 < number_value q"
  shows "fees (ledger_step (RemoveFee (Some nf)) s) = [e\<lparr>quantity := Some (minus_one q)\<rparr>]"
  using assms by (simp add: after_call_def removeFee_item)

lemma repeated_adds:
  "fees (ledger_run (replicate (Suc n) (AddFee (Some bcann_fee))) initial_store) =
     [(new_item bcann_fee 0)\<lparr>quantity := Some ((plus_one ^^ n) number_one)\<rparr>]"
proof (induction n)
  case 0
  show ?case
    by (simp add: initial_store_def after_call_def addFee_def new_item_def bcann_fee_def)
next
  case (Suc n)
  let ?c = "AddFee (Some bcann_fee)"
  let ?e = "(new_item bcann_fee 0)\<lparr>quantity := Some ((plus_one ^^ n) number_one)\<rparr>"
  have "replicate (Suc (Suc n)) ?c = replicate (Suc n) ?c @ [?c]"
    by (simp add: replicate_append_same)
  then have "fees (ledger_run (replicate (Suc (Suc n)) ?c) initial_store) =
      fees (ledger_step ?c (ledger_run (replicate (Suc n) ?c) initial_store))"
    by (simp only: ledger_run_snoc)
  also have "\<dots> = [?e\<lparr>quantity := Some (plus_one ((plus_one ^^ n) number_one))\<rparr>]"
    by (rule add_to_single [OF Suc.IH]) (simp_all add: fee_matches_new_item)
  finally show ?case
    by simp
qed

lemma value_repeated_plus_one:
  "number_value ((plus_one ^^ n) number_one) = min (1 + int n) two53"
  using two53_gt_one by (induction n) (simp_all add: value_plus_one)

lemma saturated_store_fees:
  "\<exists>q. fees saturated_store = [(new_item bcann_fee 0)\<lparr>quantity := Some q\<rparr>] \<and>
       number_value q = two53"
proof -
  have n: "nat two53 = Suc (nat two53 - 1)"
    using two53_gt_one by simp
  have "fees saturated_store =
      [(new_item bcann_fee 0)\<lparr>quantity := Some ((plus_one ^^ (nat two53 - 1)) number_one)\<rparr>]"
    unfolding saturated_store_def by (subst n) (rule repeated_adds)
  moreover have "number_value ((plus_one ^^ (nat two53 - 1)) number_one) = two53"
    using two53_gt_one by (simp add: value_repeated_plus_one)
  ultimately show ?thesis
    by blast
qed

lemma saturated_round_trip:
  "quantities saturated_store = [Some two53] \<and>
   quantities (ledger_run [AddFee (Some bcann_fee), RemoveFee (Some bcann_fee)] saturated_store)
     = [Some (two53 - 1)]"
proof -
  from saturated_store_fees obtain q
    where f: "fees saturated_store = [(new_item bcann_fee 0)\<lparr>quantity := Some q\<rparr>]"
      and q: "number_value q = two53"
    by blast
  let ?e = "(new_item bcann_fee 0)\<lparr>quantity := Some q\<rparr>"
  let ?s1 = "ledger_step (AddFee (Some bcann_fee)) saturated_store"
  have m: "fee_matches bcann_fee e" if "e = (new_item bcann_fee 0)\<lparr>quantity := r\<rparr>" for e r
    using that by (simp add: fee_matches_new_item)
  have 1: "fees ?s1 = [?e\<lparr>quantity := Some (plus_one q)\<rparr>]"
    by (rule add_to_single [OF f]) (simp_all add: fee_matches_new_item)
  have v: "number_value (plus_one q) = two53"
    using q by (simp add: value_plus_one)
  have "fees (ledger_step (RemoveFee (Some bcann_fee)) ?s1) =
      [(?e\<lparr>quantity := Some (plus_one q)\<rparr>)\<lparr>quantity := Some (minus_one (plus_one q))\<rparr>]"
    using two53_gt_one by (intro remove_from_single [OF 1]) (simp_all add: fee_matches_new_item v)
  moreover have "number_value (minus_one (plus_one q)) = two53 - 1"
    using two53_gt_one by (simp add: value_minus_one v)
  ultimately have "quantities (ledger_run [AddFee (Some bcann_fee), RemoveFee (Some bcann_fee)]
      saturated_store) = [Some (two53 - 1)]"
    by (simp add: quantities_def)
  moreover from f q have "quantities saturated_store = [Some two53]"
    by (simp add: quantities_def)
  ultimately show ?thesis
    by blast
qed

text \<open>
  C4 as stated fails. After \<open>2^53\<close> calls of \<open>addFee\<close> with the annual report fee on the
  initial store the quantity of its entry is \<open>2^53\<close>. One more \<open>addFee\<close> leaves it there,
  the sum \<open>2^53 + 1\<close> rounding back to \<open>2^53\<close>, and the \<open>removeFee\<close> that follows
  brings it to \<open>2^53 - 1\<close>: the ledger is not the one before the two calls.
\<close>

theorem C4_counterexample:
  "quantities saturated_store = [Some 9007199254740992] \<and>
   quantities (ledger_run [AddFee (Some bcann_fee), RemoveFee (Some bcann_fee)] saturated_store)
     = [Some 9007199254740991] \<and>
   fees (ledger_run [AddFee (Some bcann_fee), RemoveFee (Some bcann_fee)] saturated_store)
     \<noteq> fees saturated_store"
proof -
  have t: "two53 = 9007199254740992"
    by (simp add: two53_def)
  note r = saturated_round_trip [unfolded t]
  have a: "quantities saturated_store = [Some 9007199254740992]"
    using r by simp
  have b: "quantities (ledger_run [AddFee (Some bcann_fee), RemoveFee (Some bcann_fee)]
      saturated_store) = [Some 9007199254740991]"
    using r by simp
  have "quantities (ledger_run [AddFee (Some bcann_fee), RemoveFee (Some bcann_fee)]
      saturated_store) \<noteq> quantities saturated_store"
    unfolding a b by simp
  then have c: "fees (ledger_run [AddFee (Some bcann_fee), RemoveFee (Some bcann_fee)]
      saturated_store) \<noteq> fees saturated_store"
    by (auto simp: quantities_def)
  from a b c show ?thesis
    by (intro conjI)
qed

text \<open>
  The round trip also fails on a ledger, not one the two functions build, whose entry
  has no quantity: \<open>addFee\<close> sets the quantity to one and \<open>removeFee\<close> then deletes the
  entry. So the amended statement asks for a quantity.
\<close>

lemma round_trip_without_quantity:
  "fees (ledger_run [AddFee (Some bcann_fee), RemoveFee (Some bcann_fee)] no_quantity_store) = [] \<and>
   fees no_quantity_store \<noteq> []"
  by (simp add: no_quantity_store_def initial_store_def after_call_def addFee_def removeFee_def
      remove_entry_def fee_matches_def new_item_def bcann_fee_def splice1_def)

text \<open>
  C4, amended. When the entry with the item's key, if there is one, has an integer
  quantity of at least one and below \<open>2^53\<close> (as every entry of a ledger built from the
  empty one by fewer than \<open>2^53\<close> calls has), \<open>addFee\<close> followed by \<open>removeFee\<close> of the same
  item both return normally and leave the store as it was, but for this: an item that
  was logged as invalid stays logged, and the identifier given to an entry that was
  created and deleted again is used up, the generator having moved on to the next.
\<close>

theorem C4_add_then_remove:
  assumes ok: "\<And>i. findIndex (fee_matches nf) (fees s) = Some i \<Longrightarrow>
      \<exists>q. quantity (fees s ! i) = Some q \<and> 1 \<le> number_value q \<and> number_value q < two53"
  shows "\<exists>s1. addFee (Some nf) s = Inr s1 \<and>
           removeFee (Some nf) s1 =
             Inr (if findIndex (fee_matches nf) (fees s) \<noteq> None then s
                  else if eq_null (total nf) \<or> eq_null (filingFees nf) \<or> eq_null (filingTypeCode nf)
                  then console_error (InvalidFee (Some nf)) s
                  else s\<lparr>uuid_next := Suc (uuid_next s)\<rparr>)"
proof (cases "findIndex (fee_matches nf) (fees s)")
  case None
  show ?thesis
  proof (cases "eq_null (total nf) \<or> eq_null (filingFees nf) \<or> eq_null (filingTypeCode nf)")
    case True
    with None have "addFee (Some nf) s = Inr (console_error (InvalidFee (Some nf)) s)"
      by (simp add: addFee_new)
    moreover from None
    have "removeFee (Some nf) (console_error (InvalidFee (Some nf)) s) =
        Inr (console_error (InvalidFee (Some nf)) s)"
      by (simp add: removeFee_item)
    ultimately show ?thesis
      using None True by simp
  next
    case False
    let ?s1 = "s\<lparr>fees := fees s @ [new_item nf (uuid_next s)], uuid_next := Suc (uuid_next s)\<rparr>"
    from None False have a: "addFee (Some nf) s = Inr ?s1"
      by (simp add: addFee_new)
    from None have "findIndex (fee_matches nf) (fees ?s1) = Some (length (fees s))"
      by (simp add: findIndex_append_miss fee_matches_new_item)
    then have "removeFee (Some nf) ?s1 = Inr (s\<lparr>uuid_next := Suc (uuid_next s)\<rparr>)"
      by (simp add: removeFee_item new_item_def splice1_snoc)
    with a None False show ?thesis
      by simp
  qed
next
  case (Some i)
  then have i: "i < length (fees s)" and m: "fee_matches nf (fees s ! i)"
    by (simp_all add: findIndex_Some)
  from ok [OF Some] obtain q
    where q: "quantity (fees s ! i) = Some q" "1 \<le> number_value q" "number_value q < two53"
    by blast
  let ?s1 = "s\<lparr>fees := (fees s)[i := (fees s ! i)\<lparr>quantity := Some (plus_one q)\<rparr>]\<rparr>"
  from Some q have a: "addFee (Some nf) s = Inr ?s1"
    by (simp add: addFee_found)
  from Some m have f: "findIndex (fee_matches nf) (fees ?s1) = Some i"
    by (simp add: findIndex_update)
  from q have v: "1 < number_value (plus_one q)"
    by (simp add: value_plus_one)
  have "((fees s ! i)\<lparr>quantity := Some (plus_one q)\<rparr>)\<lparr>quantity := Some q\<rparr> = fees s ! i"
    using q(1) by (cases "fees s ! i") simp
  with f v i q(3) have "removeFee (Some nf) ?s1 = Inr s"
    by (simp add: removeFee_item minus_plus_one list_update_same_conv)
  with a Some show ?thesis
    by simp
qed

text \<open>
  C4, amended, at the annual report fee on the store that already holds it once.
\<close>

theorem C4_witness:
  "findIndex (fee_matches bcann_fee) (fees one_fee_store) = Some 0 \<and>
   quantity (fees one_fee_store ! 0) = Some number_one \<and>
   number_value number_one = 1 \<and> 1 < two53 \<and>
   (\<exists>s1. addFee (Some bcann_fee) one_fee_store = Inr s1 \<and>
         removeFee (Some bcann_fee) s1 = Inr one_fee_store)"
proof -
  have a: "findIndex (fee_matches bcann_fee) (fees one_fee_store) = Some 0"
    by (simp add: one_fee_store_eq fee_matches_new_item)
  have b: "quantity (fees one_fee_store ! 0) = Some number_one"
    by (simp add: one_fee_store_eq new_item_def)
  have h: "\<exists>q. quantity (fees one_fee_store ! i) = Some q \<and> 1 \<le> number_value q \<and>
      number_value q < two53"
    if "findIndex (fee_matches bcann_fee) (fees one_fee_store) = Some i" for i
    using that a b two53_gt_one by simp
  have "\<exists>s1. addFee (Some bcann_fee) one_fee_store = Inr s1 \<and>
         removeFee (Some bcann_fee) s1 = Inr one_fee_store"
    using C4_add_then_remove [of bcann_fee one_fee_store, OF h] by (simp add: a)
  with a b two53_gt_one show ?thesis
    by simp
qed

subsection \<open>The fee-info cache\<close>

lemma fetch_each_feeInfo: "\<exists>ys. feeInfo (snd (fetch_each api ds s)) = feeInfo s @ ys"
proof (induction ds arbitrary: s)
  case Nil
  then show ?case by simp
next
  case (Cons d ds)
  show ?case
  proof (cases "api (length (fetch_calls s)) d")
    case (Rejected e)
    then show ?thesis by simp
  next
    case (Resolved v)
    show ?thesis
    proof (cases v)
      case None
      from Cons.IH [of "s\<lparr>fetch_calls := fetch_calls s @ [d]\<rparr>"] Resolved None
      show ?thesis by simp
    next
      case (Some fee)
      from Cons.IH [of "s\<lparr>fetch_calls := fetch_calls s @ [d], feeInfo := feeInfo s @ [(d, fee)]\<rparr>"]
        Resolved Some
      show ?thesis by auto
    qed
  qed
qed

lemma load_feeInfo: "\<exists>ys. feeInfo (snd (loadFeeTypesAndCharges api folio ds s)) = feeInfo s @ ys"
  using fetch_each_feeInfo [of api ds "s\<lparr>folioNumber := folio\<rparr>"]
  by (simp add: loadFeeTypesAndCharges_def)

lemma getFeeInfo_hit:
  "find (data_matches d) (feeInfo s) = Some item \<Longrightarrow>
   getFeeInfo api d b s = (Inr (Some (snd item)), s)"
  by (simp add: getFeeInfo.simps)

lemma getFeeInfo_miss_no_load:
  "find (data_matches d) (feeInfo s) = None \<Longrightarrow> getFeeInfo api d False s = (Inr None, s)"
  by (simp add: getFeeInfo.simps)

lemma getFeeInfo_miss_load:
  assumes "find (data_matches d) (feeInfo s) = None"
  shows "getFeeInfo api d True s =
     (case api (length (fetch_calls s)) d of
        Rejected e \<Rightarrow> (Inl e, s\<lparr>fetch_calls := fetch_calls s @ [d]\<rparr>)
      | Resolved None \<Rightarrow> (Inr None, s\<lparr>fetch_calls := fetch_calls s @ [d]\<rparr>)
      | Resolved (Some fee) \<Rightarrow>
          (Inr (Some fee), s\<lparr>fetch_calls := fetch_calls s @ [d],
                              feeInfo := feeInfo s @ [(d, fee)]\<rparr>))"
proof (cases "api (length (fetch_calls s)) d")
  case (Rejected e)
  with assms show ?thesis
    by (simp add: getFeeInfo.simps [of _ _ True] loadFeeTypesAndCharges_def)
next
  case (Resolved v)
  show ?thesis
  proof (cases v)
    case None
    with assms Resolved show ?thesis
      by (simp add: getFeeInfo.simps [of _ _ True] loadFeeTypesAndCharges_def
          getFeeInfo_miss_no_load)
  next
    case (Some fee)
    have "find (data_matches d) (feeInfo s @ [(d, fee)]) = Some (d, fee)"
      using assms by (simp add: find_append_miss data_matches_def)
    then have "getFeeInfo api d False
        (s\<lparr>fetch_calls := fetch_calls s @ [d], feeInfo := feeInfo s @ [(d, fee)]\<rparr>) =
        (Inr (Some fee), s\<lparr>fetch_calls := fetch_calls s @ [d], feeInfo := feeInfo s @ [(d, fee)]\<rparr>)"
      by (simp add: getFeeInfo_hit)
    with assms Resolved Some show ?thesis
      by (simp add: getFeeInfo.simps [of _ _ True] loadFeeTypesAndCharges_def)
  qed
qed

lemma getFeeInfo_feeInfo: "\<exists>ys. feeInfo (snd (getFeeInfo api d b s)) = feeInfo s @ ys"
proof (cases "find (data_matches d) (feeInfo s)")
  case (Some item)
  then show ?thesis by (simp add: getFeeInfo_hit)
next
  case None
  show ?thesis
  proof (cases b)
    case False
    with None show ?thesis by (simp add: getFeeInfo_miss_no_load)
  next
    case True
    with None show ?thesis
      by (simp add: getFeeInfo_miss_load split: promise.splits option.splits)
  qed
qed

text \<open>
  C5. When the cache has an entry for the key of \<open>d\<close>, \<open>getFeeInfo\<close> with
  \<open>tryLoadIfNotCached = true\<close> returns the fee of the first such entry and leaves the whole
  store, the list of calls to \<open>fetchFee\<close> included, as it was; and the entry is still
  the one found after any further \<open>getFeeInfo\<close> or \<open>loadFeeTypesAndCharges\<close> call. When
  the cache has no entry for the key, \<open>getFeeInfo\<close> with \<open>tryLoadIfNotCached = true\<close> makes
  exactly one call to \<open>fetchFee\<close>, for \<open>d\<close>, and ends: with the error when the call
  rejects, with nothing when it resolves to \<open>undefined\<close>, with the fee (now cached)
  otherwise. With \<open>tryLoadIfNotCached = false\<close> it makes no call and returns nothing.
  \<open>getFeeInfo\<close> is a total function: its only recursive call passes \<open>false\<close>.
\<close>

theorem C5_getFeeInfo_cached:
  "(find (data_matches d) (feeInfo s) = Some item \<longrightarrow>
      getFeeInfo api d True s = (Inr (Some (snd item)), s) \<and>
      find (data_matches d) (feeInfo (snd (getFeeInfo api d' b s))) = Some item \<and>
      find (data_matches d) (feeInfo (snd (loadFeeTypesAndCharges api folio ds s))) = Some item) \<and>
   (find (data_matches d) (feeInfo s) = None \<longrightarrow>
      fetch_calls (snd (getFeeInfo api d True s)) = fetch_calls s @ [d] \<and>
      getFeeInfo api d True s =
        (case api (length (fetch_calls s)) d of
           Rejected e \<Rightarrow> (Inl e, s\<lparr>fetch_calls := fetch_calls s @ [d]\<rparr>)
         | Resolved None \<Rightarrow> (Inr None, s\<lparr>fetch_calls := fetch_calls s @ [d]\<rparr>)
         | Resolved (Some fee) \<Rightarrow>
             (Inr (Some fee), s\<lparr>fetch_calls := fetch_calls s @ [d],
                                 feeInfo := feeInfo s @ [(d, fee)]\<rparr>)) \<and>
      getFeeInfo api d False s = (Inr None, s))"
proof (intro conjI impI)
  assume hit: "find (data_matches d) (feeInfo s) = Some item"
  then show "getFeeInfo api d True s = (Inr (Some (snd item)), s)"
    by (rule getFeeInfo_hit)
  from getFeeInfo_feeInfo obtain ys
    where "feeInfo (snd (getFeeInfo api d' b s)) = feeInfo s @ ys" by blast
  with hit show "find (data_matches d) (feeInfo (snd (getFeeInfo api d' b s))) = Some item"
    by (simp add: find_append_hit)
  from load_feeInfo obtain zs
    where "feeInfo (snd (loadFeeTypesAndCharges api folio ds s)) = feeInfo s @ zs" by blast
  with hit
  show "find (data_matches d) (feeInfo (snd (loadFeeTypesAndCharges api folio ds s))) = Some item"
    by (simp add: find_append_hit)
next
  assume miss: "find (data_matches d) (feeInfo s) = None"
  then show "fetch_calls (snd (getFeeInfo api d True s)) = fetch_calls s @ [d]"
    by (simp add: getFeeInfo_miss_load split: promise.splits option.splits)
  from miss show "getFeeInfo api d True s =
        (case api (length (fetch_calls s)) d of
           Rejected e \<Rightarrow> (Inl e, s\<lparr>fetch_calls := fetch_calls s @ [d]\<rparr>)
         | Resolved None \<Rightarrow> (Inr None, s\<lparr>fetch_calls := fetch_calls s @ [d]\<rparr>)
         | Resolved (Some fee) \<Rightarrow>
             (Inr (Some fee), s\<lparr>fetch_calls := fetch_calls s @ [d],
                                 feeInfo := feeInfo s @ [(d, fee)]\<rparr>))"
    by (rule getFeeInfo_miss_load)
  from miss show "getFeeInfo api d False s = (Inr None, s)"
    by (rule getFeeInfo_miss_no_load)
qed

text \<open>
  C5 at the annual report descriptor: the first lookup on the initial store calls
  \<open>fetchFee\<close> once and caches the fee, the second returns it from the cache and leaves
  the store as it is.
\<close>

theorem C5_witness:
  "find (data_matches bcann_data) (feeInfo initial_store) = None \<and>
   getFeeInfo bcann_api bcann_data True initial_store = (Inr (Some bcann_fee), loaded_store) \<and>
   find (data_matches bcann_data) (feeInfo loaded_store) = Some (bcann_data, bcann_fee) \<and>
   getFeeInfo bcann_api bcann_data True loaded_store = (Inr (Some bcann_fee), loaded_store)"
proof -
  have miss: "find (data_matches bcann_data) (feeInfo initial_store) = None"
    by (simp add: initial_store_def)
  have hit: "find (data_matches bcann_data) (feeInfo loaded_store) = Some (bcann_data, bcann_fee)"
    by (simp add: loaded_store_def data_matches_def)
  from C5_getFeeInfo_cached [where d = bcann_data and s = initial_store and api = bcann_api] miss
  have "getFeeInfo bcann_api bcann_data True initial_store =
        (case bcann_api (length (fetch_calls initial_store)) bcann_data of
           Rejected e \<Rightarrow> (Inl e, initial_store\<lparr>fetch_calls := fetch_calls initial_store @ [bcann_data]\<rparr>)
         | Resolved None \<Rightarrow> (Inr None, initial_store\<lparr>fetch_calls := fetch_calls initial_store @ [bcann_data]\<rparr>)
         | Resolved (Some fee) \<Rightarrow>
             (Inr (Some fee), initial_store\<lparr>fetch_calls := fetch_calls initial_store @ [bcann_data],
                                 feeInfo := feeInfo initial_store @ [(bcann_data, fee)]\<rparr>))"
    by blast
  then have first: "getFeeInfo bcann_api bcann_data True initial_store = (Inr (Some bcann_fee), loaded_store)"
    by (simp add: bcann_api_def loaded_store_def initial_store_def)
  from C5_getFeeInfo_cached [where d = bcann_data and s = loaded_store and api = bcann_api
      and item = "(bcann_data, bcann_fee)"] hit
  have again: "getFeeInfo bcann_api bcann_data True loaded_store = (Inr (Some bcann_fee), loaded_store)"
    by simp
  from miss first hit again show ?thesis
    by (intro conjI)
qed

subsection \<open>A batch of lookups\<close>

lemma fetch_each_resolved:
  assumes "\<forall>k < length ds. \<not> rejects (api (length (fetch_calls s) + k) (ds ! k))"
  shows "fetch_each api ds s =
     (Inr (), s\<lparr>fetch_calls := fetch_calls s @ ds,
                feeInfo := feeInfo s @ resolved_pairs api (length (fetch_calls s)) ds\<rparr>)"
  using assms
proof (induction ds arbitrary: s)
  case Nil
  then show ?case by simp
next
  case (Cons d ds)
  let ?n = "length (fetch_calls s)"
  from Cons.prems have 0: "\<not> rejects (api ?n d)"
    by force
  have rest: "\<forall>k < length ds. \<not> rejects (api (Suc ?n + k) (ds ! k))"
  proof (intro allI impI)
    fix k assume "k < length ds"
    then have "Suc k < length (d # ds)" by simp
    with Cons.prems have "\<not> rejects (api (?n + Suc k) ((d # ds) ! Suc k))" by blast
    then show "\<not> rejects (api (Suc ?n + k) (ds ! k))" by simp
  qed
  show ?case
  proof (cases "api ?n d")
    case (Rejected e)
    with 0 show ?thesis by (simp add: rejects_def)
  next
    case (Resolved v)
    show ?thesis
    proof (cases v)
      case None
      let ?s1 = "s\<lparr>fetch_calls := fetch_calls s @ [d]\<rparr>"
      from rest have "\<forall>k < length ds. \<not> rejects (api (length (fetch_calls ?s1) + k) (ds ! k))"
        by simp
      from Cons.IH [OF this] Resolved None show ?thesis
        by simp
    next
      case (Some fee)
      let ?s1 = "s\<lparr>fetch_calls := fetch_calls s @ [d], feeInfo := feeInfo s @ [(d, fee)]\<rparr>"
      from rest have "\<forall>k < length ds. \<not> rejects (api (length (fetch_calls ?s1) + k) (ds ! k))"
        by simp
      from Cons.IH [OF this] Resolved Some show ?thesis
        by simp
    qed
  qed
qed

lemma fetch_each_rejected:
  assumes "k < length ds"
    and "\<forall>j < k. \<not> rejects (api (length (fetch_calls s) + j) (ds ! j))"
    and "api (length (fetch_calls s) + k) (ds ! k) = Rejected e"
  shows "fetch_each api ds s =
     (Inl e, s\<lparr>fetch_calls := fetch_calls s @ take (Suc k) ds,
               feeInfo := feeInfo s @ resolved_pairs api (length (fetch_calls s)) (take k ds)\<rparr>)"
  using assms
proof (induction ds arbitrary: s k)
  case Nil
  then show ?case by simp
next
  case (Cons d ds)
  let ?n = "length (fetch_calls s)"
  show ?case
  proof (cases k)
    case 0
    with Cons.prems show ?thesis by simp
  next
    case (Suc k')
    with Cons.prems have k': "k' < length ds" by simp
    from Cons.prems Suc have 0: "\<not> rejects (api ?n d)"
      by force
    have rest: "\<forall>j < k'. \<not> rejects (api (Suc ?n + j) (ds ! j))"
    proof (intro allI impI)
      fix j assume "j < k'"
      then have "Suc j < k" using Suc by simp
      with Cons.prems(2) have "\<not> rejects (api (?n + Suc j) ((d # ds) ! Suc j))" by blast
      then show "\<not> rejects (api (Suc ?n + j) (ds ! j))" by simp
    qed
    from Cons.prems(3) Suc have rej: "api (Suc ?n + k') (ds ! k') = Rejected e"
      by simp
    show ?thesis
    proof (cases "api ?n d")
      case (Rejected e')
      with 0 show ?thesis by (simp add: rejects_def)
    next
      case (Resolved v)
      show ?thesis
      proof (cases v)
        case None
        let ?s1 = "s\<lparr>fetch_calls := fetch_calls s @ [d]\<rparr>"
        from rest have a: "\<forall>j < k'. \<not> rejects (api (length (fetch_calls ?s1) + j) (ds ! j))"
          by simp
        from rej have b: "api (length (fetch_calls ?s1) + k') (ds ! k') = Rejected e"
          by simp
        from Cons.IH [OF k' a b] Resolved None Suc show ?thesis
          by simp
      next
        case (Some fee)
        let ?s1 = "s\<lparr>fetch_calls := fetch_calls s @ [d], feeInfo := feeInfo s @ [(d, fee)]\<rparr>"
        from rest have a: "\<forall>j < k'. \<not> rejects (api (length (fetch_calls ?s1) + j) (ds ! j))"
          by simp
        from rej have b: "api (length (fetch_calls ?s1) + k') (ds ! k') = Rejected e"
          by simp
        from Cons.IH [OF k' a b] Resolved Some Suc show ?thesis
          by simp
      qed
    qed
  qed
qed

lemma load_bcann_api:
  "loadFeeTypesAndCharges bcann_api ''F1'' [other_data, bcann_data] initial_store =
     (Inr (), initial_store\<lparr>folioNumber := ''F1'',
                fetch_calls := [other_data, bcann_data],
                feeInfo := [(bcann_data, bcann_fee)]\<rparr>)"
  by (simp add: loadFeeTypesAndCharges_def bcann_api_def initial_store_def
      other_data_def bcann_data_def)

lemma load_failing_api:
  "loadFeeTypesAndCharges failing_api ''F1'' [other_data, bcann_data] initial_store =
     (Inl FetchError, initial_store\<lparr>folioNumber := ''F1'', fetch_calls := [other_data]\<rparr>)"
  by (simp add: loadFeeTypesAndCharges_def failing_api_def initial_store_def
      other_data_def bcann_data_def)

text \<open>
  C6 as stated fails. \<open>fetchFee\<close> rejects for the first descriptor of a batch of two and
  would resolve to a fee for the second; \<open>loadFeeTypesAndCharges\<close> makes the first call
  only and caches nothing.
\<close>

theorem C6_counterexample:
  "failing_api 0 other_data = Rejected FetchError \<and>
   failing_api 1 bcann_data = Resolved (Some bcann_fee) \<and>
   fetch_calls (snd (loadFeeTypesAndCharges failing_api ''F1'' [other_data, bcann_data] initial_store))
     = [other_data] \<and>
   feeInfo (snd (loadFeeTypesAndCharges failing_api ''F1'' [other_data, bcann_data] initial_store))
     = []"
  by (simp add: load_failing_api) (simp add: failing_api_def initial_store_def other_data_def bcann_data_def)

text \<open>
  C6, amended. \<open>loadFeeTypesAndCharges\<close> records the folio number and calls \<open>fetchFee\<close>
  for the descriptors one after the other in list order. When no call rejects, every
  descriptor is looked up, a call that resolves to \<open>undefined\<close> adds nothing to the
  cache, and the others add their pair, in order. When the call for the descriptor at
  index \<open>k\<close> is the first to reject, the batch ends there with that error: the calls
  up to and including that one were made, the pairs of the earlier ones are cached, and
  the later descriptors are not looked up.
\<close>

theorem C6_load_batch:
  "(( \<forall>k < length ds. \<not> rejects (api (length (fetch_calls s) + k) (ds ! k))) \<longrightarrow>
      loadFeeTypesAndCharges api folio ds s =
        (Inr (), s\<lparr>folioNumber := folio,
                   fetch_calls := fetch_calls s @ ds,
                   feeInfo := feeInfo s @ resolved_pairs api (length (fetch_calls s)) ds\<rparr>)) \<and>
   (k < length ds \<and>
    (\<forall>j < k. \<not> rejects (api (length (fetch_calls s) + j) (ds ! j))) \<and>
    api (length (fetch_calls s) + k) (ds ! k) = Rejected e \<longrightarrow>
      loadFeeTypesAndCharges api folio ds s =
        (Inl e, s\<lparr>folioNumber := folio,
                  fetch_calls := fetch_calls s @ take (Suc k) ds,
                  feeInfo := feeInfo s @ resolved_pairs api (length (fetch_calls s)) (take k ds)\<rparr>))"
proof (intro conjI impI)
  let ?s0 = "s\<lparr>folioNumber := folio\<rparr>"
  assume "\<forall>k < length ds. \<not> rejects (api (length (fetch_calls s) + k) (ds ! k))"
  then have "\<forall>k < length ds. \<not> rejects (api (length (fetch_calls ?s0) + k) (ds ! k))"
    by simp
  from fetch_each_resolved [OF this]
  show "loadFeeTypesAndCharges api folio ds s =
        (Inr (), s\<lparr>folioNumber := folio,
                   fetch_calls := fetch_calls s @ ds,
                   feeInfo := feeInfo s @ resolved_pairs api (length (fetch_calls s)) ds\<rparr>)"
    by (simp add: loadFeeTypesAndCharges_def)
next
  let ?s0 = "s\<lparr>folioNumber := folio\<rparr>"
  assume a: "k < length ds \<and>
    (\<forall>j < k. \<not> rejects (api (length (fetch_calls s) + j) (ds ! j))) \<and>
    api (length (fetch_calls s) + k) (ds ! k) = Rejected e"
  then have 1: "k < length ds"
    and 2: "\<forall>j < k. \<not> rejects (api (length (fetch_calls ?s0) + j) (ds ! j))"
    and 3: "api (length (fetch_calls ?s0) + k) (ds ! k) = Rejected e"
    by simp_all
  from fetch_each_rejected [OF 1 2 3]
  show "loadFeeTypesAndCharges api folio ds s =
        (Inl e, s\<lparr>folioNumber := folio,
                  fetch_calls := fetch_calls s @ take (Suc k) ds,
                  feeInfo := feeInfo s @ resolved_pairs api (length (fetch_calls s)) (take k ds)\<rparr>)"
    by (simp add: loadFeeTypesAndCharges_def)
qed

text \<open>
  C6, amended, at a batch of two: with a pay API that resolves to \<open>undefined\<close> for the
  first descriptor, and with one that rejects for it.
\<close>

theorem C6_witness:
  "\<not> rejects (bcann_api 0 other_data) \<and> \<not> rejects (bcann_api 1 bcann_data) \<and>
   loadFeeTypesAndCharges bcann_api ''F1'' [other_data, bcann_data] initial_store =
     (Inr (), initial_store\<lparr>folioNumber := ''F1'',
                fetch_calls := [other_data, bcann_data],
                feeInfo := [(bcann_data, bcann_fee)]\<rparr>) \<and>
   failing_api 0 other_data = Rejected FetchError \<and>
   loadFeeTypesAndCharges failing_api ''F1'' [other_data, bcann_data] initial_store =
     (Inl FetchError, initial_store\<lparr>folioNumber := ''F1'', fetch_calls := [other_data]\<rparr>)"
proof -
  have n: "fetch_calls initial_store = []" "feeInfo initial_store = []"
    by (simp_all add: initial_store_def)
  have r0: "\<not> rejects (bcann_api 0 other_data)" and r1: "\<not> rejects (bcann_api 1 bcann_data)"
    by (simp_all add: rejects_def bcann_api_def)
  have all: "\<forall>k < length [other_data, bcann_data].
      \<not> rejects (bcann_api (length (fetch_calls initial_store) + k) ([other_data, bcann_data] ! k))"
    using r0 r1 by (simp add: n less_Suc_eq)
  have pairs: "resolved_pairs bcann_api 0 [other_data, bcann_data] = [(bcann_data, bcann_fee)]"
    by (simp add: bcann_api_def other_data_def bcann_data_def)
  have f0: "failing_api 0 other_data = Rejected FetchError"
    by (simp add: failing_api_def other_data_def bcann_data_def)
  have f0': "0 < length [other_data, bcann_data] \<and>
      (\<forall>j < 0. \<not> rejects (failing_api (length (fetch_calls initial_store) + j)
         ([other_data, bcann_data] ! j))) \<and>
      failing_api (length (fetch_calls initial_store) + 0) ([other_data, bcann_data] ! 0)
        = Rejected FetchError"
    using f0 by (simp add: n)
  note inst = C6_load_batch [where ds = "[other_data, bcann_data]" and s = initial_store
      and folio = "''F1''" and k = 0 and e = FetchError]
  from inst [where api = bcann_api] all
  have "loadFeeTypesAndCharges bcann_api ''F1'' [other_data, bcann_data] initial_store =
     (Inr (), initial_store\<lparr>folioNumber := ''F1'',
                fetch_calls := fetch_calls initial_store @ [other_data, bcann_data],
                feeInfo := feeInfo initial_store @
                  resolved_pairs bcann_api (length (fetch_calls initial_store))
                    [other_data, bcann_data]\<rparr>)"
    by blast
  then have ok: "loadFeeTypesAndCharges bcann_api ''F1'' [other_data, bcann_data] initial_store =
     (Inr (), initial_store\<lparr>folioNumber := ''F1'',
                fetch_calls := [other_data, bcann_data],
                feeInfo := [(bcann_data, bcann_fee)]\<rparr>)"
    by (simp only: n list.size(3) append_Nil pairs)
  from inst [where api = failing_api] f0'
  have "loadFeeTypesAndCharges failing_api ''F1'' [other_data, bcann_data] initial_store =
     (Inl FetchError, initial_store\<lparr>folioNumber := ''F1'',
                fetch_calls := fetch_calls initial_store @ take (Suc 0) [other_data, bcann_data],
                feeInfo := feeInfo initial_store @
                  resolved_pairs failing_api (length (fetch_calls initial_store))
                    (take 0 [other_data, bcann_data])\<rparr>)"
    by blast
  then have bad: "loadFeeTypesAndCharges failing_api ''F1'' [other_data, bcann_data] initial_store =
     (Inl FetchError, initial_store\<lparr>folioNumber := ''F1'', fetch_calls := [other_data]\<rparr>)"
    by (simp add: n initial_store_def)
  from r0 r1 ok f0 bad show ?thesis
    by (intro conjI)
qed

subsection \<open>The payment method selector\<close>

lemma flushJobs_reset:
  "flushJobs (resetPaymentOptions s) = (resetPaymentOptions s)\<lparr>watcher_oldValue := PAD\<rparr>"
proof -
  have "\<not> watch_condition (userPaymentAccount (resetPaymentOptions s))"
    by (simp add: resetPaymentOptions_def watch_condition_empty)
  from flushJobs_no_pending [OF this] show ?thesis
    by (simp add: resetPaymentOptions_def)
qed

lemma initPaymentMethod_rejected:
  "initPaymentMethod (Rejected e) s =
     (resetPaymentOptions s)\<lparr>watcher_oldValue := PAD,
        console := console s @ [InitPaymentError e],
        alerts := alerts s @ [pm_alert]\<rparr>"
proof -
  let ?s1 = "(resetPaymentOptions s)\<lparr>watcher_oldValue := PAD\<rparr>"
  let ?s2 = "addAlert pm_alert (console_error (InitPaymentError e) ?s1)"
  have q: "userSelectedPaymentMethod ?s2 = watcher_oldValue ?s2"
    by (simp add: addAlert_def console_error_def resetPaymentOptions_def)
  have "initPaymentMethod (Rejected e) s = flushJobs ?s2"
    by (simp add: initPaymentMethod_def flushJobs_reset pm_alert_def)
  also from q have "\<dots> = ?s2"
    by (rule flushJobs_quiet)
  also have "\<dots> = (resetPaymentOptions s)\<lparr>watcher_oldValue := PAD,
        console := console s @ [InitPaymentError e],
        alerts := alerts s @ [pm_alert]\<rparr>"
    by (simp add: addAlert_def console_error_def resetPaymentOptions_def)
  finally show ?thesis .
qed

text \<open>
  C7. When the call for the payment account fails, \<open>initPaymentMethod\<close> adds one alert of
  category \<open>PAYMENT_METHOD\<close>, \<open>allowAlternatePaymentMethod\<close> is false, and
  \<open>userPaymentAccount\<close>, \<open>userSelectedPaymentMethod\<close> and \<open>allowedPaymentMethods\<close> are as
  \<open>resetPaymentOptions\<close> left them; the account snapshot is the empty one.
\<close>

theorem C7_init_failure:
  "alerts (initPaymentMethod (Rejected e) s) = alerts s @ [pm_alert] \<and>
   category pm_alert = PAYMENT_METHOD \<and>
   allowAlternatePaymentMethod (initPaymentMethod (Rejected e) s) = False \<and>
   userPaymentAccount (initPaymentMethod (Rejected e) s) = userPaymentAccount (resetPaymentOptions s) \<and>
   userSelectedPaymentMethod (initPaymentMethod (Rejected e) s) =
     userSelectedPaymentMethod (resetPaymentOptions s) \<and>
   allowedPaymentMethods (initPaymentMethod (Rejected e) s) =
     allowedPaymentMethods (resetPaymentOptions s) \<and>
   userPaymentAccount (initPaymentMethod (Rejected e) s) = emptyAccount"
  by (simp add: initPaymentMethod_rejected) (simp add: resetPaymentOptions_def pm_alert_def)

text \<open>
  C8 as stated fails: \<open>resetPaymentOptions\<close> of the second revision selects
  \<open>DIRECT_PAY\<close>, not \<open>PAD\<close>.
\<close>

theorem C8_counterexample:
  "userSelectedPaymentMethod (resetPaymentOptions_rev2 initial_store) \<noteq> PAD"
  by (simp add: resetPaymentOptions_rev2_def)

text \<open>
  C8, amended. After \<open>resetPaymentOptions\<close> the account snapshot is empty,
  \<open>allowAlternatePaymentMethod\<close> is false and the list of allowed payment methods is
  empty, in both revisions; the selected payment method is \<open>PAD\<close> in the first revision
  and \<open>DIRECT_PAY\<close> in the second.
\<close>

theorem C8_resetPaymentOptions:
  "userPaymentAccount (resetPaymentOptions s) = emptyAccount \<and>
   userSelectedPaymentMethod (resetPaymentOptions s) = PAD \<and>
   allowAlternatePaymentMethod (resetPaymentOptions s) = False \<and>
   allowedPaymentMethods (resetPaymentOptions s) = [] \<and>
   userPaymentAccount (resetPaymentOptions_rev2 s) = emptyAccount \<and>
   userSelectedPaymentMethod (resetPaymentOptions_rev2 s) = DIRECT_PAY \<and>
   allowAlternatePaymentMethod (resetPaymentOptions_rev2 s) = False \<and>
   allowedPaymentMethods (resetPaymentOptions_rev2 s) = []"
  by (simp add: resetPaymentOptions_def resetPaymentOptions_rev2_def)

subsection \<open>Resetting the store\<close>




subsection \<open>The two revisions of the fee ledger\<close>

lemma fee_matches_lambda:
  "(\<lambda>fee :: PayFeesWidgetItem.
      filingType fee = filingType nf \<and> filingTypeCode fee = filingTypeCode nf) = fee_matches nf"
  by (rule ext) (simp add: fee_matches_def)

lemma data_matches_lambda:
  "(\<lambda>(filingData, _ :: FeeInfo).
      entityType filingData = entityType d \<and> filingTypeCode_d filingData = filingTypeCode_d d)
   = data_matches d"
  by (rule ext) (simp add: data_matches_def split: prod.splits)

lemma addFee_rev2_eq: "addFee_rev2 f s = addFee f s"
proof (cases f)
  case None
  then show ?thesis
    by (simp add: addFee_rev2_def addFee_def console_error_def)
next
  case (Some nf)
  show ?thesis
  proof (cases "findIndex (fee_matches nf) (fees s)")
    case None
    with Some show ?thesis
      by (simp add: addFee_rev2_def addFee_def fee_matches_lambda console_error_def new_item_def)
  next
    case (Some i)
    with \<open>f = Some nf\<close> show ?thesis
      by (cases "quantity (fees s ! i)")
        (simp_all add: addFee_rev2_def addFee_def fee_matches_lambda)
  qed
qed

lemma removeFee_rev2_eq: "removeFee_rev2 f s = removeFee f s"
proof (cases f)
  case None
  then show ?thesis
    by (simp add: removeFee_rev2_def removeFee_def)
next
  case (Some fr)
  show ?thesis
  proof (cases "findIndex (fee_matches fr) (fees s)")
    case None
    with Some show ?thesis
      by (simp add: removeFee_rev2_def removeFee_def remove_entry_def fee_matches_lambda)
  next
    case (Some i)
    with \<open>f = Some fr\<close> show ?thesis
      by (cases "quantity (fees s ! i)")
        (simp_all add: removeFee_rev2_def removeFee_def remove_entry_def fee_matches_lambda
          splice1_def)
  qed
qed

lemma fetch_each_rev2_eq: "fetch_each_rev2 api ds s = fetch_each api ds s"
proof (induction ds arbitrary: s)
  case Nil
  show ?case by simp
next
  case (Cons d ds)
  show ?case
  proof (cases "api (length (fetch_calls s)) d")
    case (Rejected e)
    then show ?thesis by simp
  next
    case (Resolved v)
    with Cons.IH show ?thesis
      by (cases v) simp_all
  qed
qed

lemma load_rev2_eq:
  "loadFeeTypesAndCharges_rev2 api folio ds s = loadFeeTypesAndCharges api folio ds s"
  by (simp add: loadFeeTypesAndCharges_rev2_def loadFeeTypesAndCharges_def fetch_each_rev2_eq)

lemma getFeeInfo_rev2_no_load: "getFeeInfo_rev2 api d False s = getFeeInfo api d False s"
  by (simp add: getFeeInfo_rev2.simps [of _ _ False] getFeeInfo.simps [of _ _ False]
      data_matches_lambda)

lemma getFeeInfo_rev2_eq: "getFeeInfo_rev2 api d b s = getFeeInfo api d b s"
proof (cases b)
  case False
  then show ?thesis by (simp add: getFeeInfo_rev2_no_load)
next
  case True
  then show ?thesis
    by (simp add: getFeeInfo_rev2.simps [of _ _ True] getFeeInfo.simps [of _ _ True]
      data_matches_lambda load_rev2_eq getFeeInfo_rev2_no_load
      split: option.splits prod.splits sum.splits)
qed

lemma addPayFees_rev2_eq: "addPayFees_rev2 table api code s = addPayFees table api code s"
  by (simp add: addPayFees_rev2_def addPayFees_def getFeeInfo_rev2_eq addFee_rev2_eq addAlert_def
      split: prod.splits sum.splits option.splits)

text \<open>
  C10. \<open>addFee\<close>, \<open>removeFee\<close>, \<open>loadFeeTypesAndCharges\<close>, \<open>getFeeInfo\<close>, \<open>addPayFees\<close>
  and \<open>$reset\<close> of the second revision return what those of the first return and leave
  the same store, on every argument and every store.
\<close>

theorem C10_revisions_agree:
  "addFee_rev2 f s = addFee f s \<and>
   removeFee_rev2 f s = removeFee f s \<and>
   loadFeeTypesAndCharges_rev2 api folio ds s = loadFeeTypesAndCharges api folio ds s \<and>
   getFeeInfo_rev2 api d b s = getFeeInfo api d b s \<and>
   addPayFees_rev2 table api code s = addPayFees table api code s \<and>
   dollar_reset_rev2 s = dollar_reset s"
  by (simp add: addFee_rev2_eq removeFee_rev2_eq load_rev2_eq getFeeInfo_rev2_eq
      addPayFees_rev2_eq dollar_reset_rev2_def dollar_reset_def dollar_reset_rev2_steps_def
      dollar_reset_steps_def)

end
